theory Spec2Isabelle
  imports Complex_Main "HOL-Library.Multiset" "HOL-Library.Sublist"
    "HOL-Library.List_Lexorder" "HOL-Library.Char_ord"
begin

section \<open>NumberModule.int\<close>

text \<open>
  A JavaScript number is an IEEE-754 double.  The model keeps the three special values
  apart from the finite ones and represents a finite double by the rational it denotes.
  Negative zero is identified with zero (the two are equal under \<^verbatim>\<open>===\<close>, \<^verbatim>\<open><\<close>,
  \<^verbatim>\<open>>=\<close> and \<^verbatim>\<open>includes\<close>).  Rounding of an arithmetic result to a double is the
  parameter \<open>fl\<close> of the arithmetic operations below; \<^verbatim>\<open>Math.ceil\<close>,
  \<^verbatim>\<open>Math.floor\<close> and the comparisons are exact on doubles and take no such parameter.
\<close>

datatype jsnum = NaN | NegInf | Fin rat | PosInf

text \<open>\<^verbatim>\<open>a <= b\<close>, \<^verbatim>\<open>a < b\<close>, \<^verbatim>\<open>a >= b\<close>: false as soon as one side is NaN.\<close>

fun js_le :: "jsnum \<Rightarrow> jsnum \<Rightarrow> bool" where
  "js_le NaN _ = False"
| "js_le _ NaN = False"
| "js_le NegInf _ = True"
| "js_le _ PosInf = True"
| "js_le (Fin x) (Fin y) = (x \<le> y)"
| "js_le (Fin x) NegInf = False"
| "js_le PosInf (Fin y) = False"
| "js_le PosInf NegInf = False"

fun js_lt :: "jsnum \<Rightarrow> jsnum \<Rightarrow> bool" where
  "js_lt NaN _ = False"
| "js_lt _ NaN = False"
| "js_lt PosInf _ = False"
| "js_lt _ NegInf = False"
| "js_lt (Fin x) (Fin y) = (x < y)"
| "js_lt NegInf (Fin y) = True"
| "js_lt NegInf PosInf = True"
| "js_lt (Fin x) PosInf = True"

definition js_ge :: "jsnum \<Rightarrow> jsnum \<Rightarrow> bool" where
  "js_ge a b = js_le b a"

text \<open>\<^verbatim>\<open>a === b\<close> on numbers: NaN is not equal to itself.\<close>

definition js_strict_eq :: "jsnum \<Rightarrow> jsnum \<Rightarrow> bool" where
  "js_strict_eq a b = (a \<noteq> NaN \<and> b \<noteq> NaN \<and> a = b)"

fun Math_ceil :: "jsnum \<Rightarrow> jsnum" where
  "Math_ceil (Fin x) = Fin (of_int \<lceil>x\<rceil>)"
| "Math_ceil v = v"

fun Math_floor :: "jsnum \<Rightarrow> jsnum" where
  "Math_floor (Fin x) = Fin (of_int \<lfloor>x\<rfloor>)"
| "Math_floor v = v"

text \<open>
  Addition, subtraction and multiplication.  On two finite operands the exact result is
  rounded by \<open>fl\<close> (which may overflow to an infinity); the special values follow
  IEEE-754: \<open>\<infinity> - \<infinity>\<close> and \<open>0 * \<infinity>\<close> are NaN.
\<close>

fun js_neg :: "jsnum \<Rightarrow> jsnum" where
  "js_neg NaN = NaN"
| "js_neg NegInf = PosInf"
| "js_neg PosInf = NegInf"
| "js_neg (Fin x) = Fin (- x)"

fun js_add :: "(rat \<Rightarrow> jsnum) \<Rightarrow> jsnum \<Rightarrow> jsnum \<Rightarrow> jsnum" where
  "js_add fl NaN _ = NaN"
| "js_add fl _ NaN = NaN"
| "js_add fl (Fin x) (Fin y) = fl (x + y)"
| "js_add fl PosInf NegInf = NaN"
| "js_add fl NegInf PosInf = NaN"
| "js_add fl PosInf _ = PosInf"
| "js_add fl NegInf _ = NegInf"
| "js_add fl (Fin x) v = v"

definition js_sub :: "(rat \<Rightarrow> jsnum) \<Rightarrow> jsnum \<Rightarrow> jsnum \<Rightarrow> jsnum" where
  "js_sub fl a b = js_add fl a (js_neg b)"

fun js_sign :: "jsnum \<Rightarrow> int" where
  "js_sign NaN = 0"
| "js_sign NegInf = -1"
| "js_sign PosInf = 1"
| "js_sign (Fin x) = (if x < 0 then -1 else if x = 0 then 0 else 1)"

fun js_mul :: "(rat \<Rightarrow> jsnum) \<Rightarrow> jsnum \<Rightarrow> jsnum \<Rightarrow> jsnum" where
  "js_mul fl NaN _ = NaN"
| "js_mul fl _ NaN = NaN"
| "js_mul fl (Fin x) (Fin y) = fl (x * y)"
| "js_mul fl a b =
     (if js_sign a * js_sign b = 0 then NaN
      else if js_sign a * js_sign b < 0 then NegInf else PosInf)"

definition MAX_SAFE_INTEGER :: jsnum where
  "MAX_SAFE_INTEGER = Fin 9007199254740991"

text \<open>
  The argument of \<^verbatim>\<open>int\<close>: a number, or an object whose three properties may each be
  absent; the argument itself may be absent (\<open>None\<close>), and then defaults to \<^verbatim>\<open>{}\<close>.
\<close>

datatype int_options =
  NumberArg jsnum
| ObjectArg (opt_min: "jsnum option") (opt_max: "jsnum option") (opt_exclude: "jsnum list option")

datatype FakerError =
  NoIntegerValueBetween jsnum jsnum
| MaxShouldBeGreaterThanMin jsnum jsnum
| MoreValuesInExcludeList

text \<open>
  The randomizer is the state of the module: \<^verbatim>\<open>next()\<close> returns the next real of a
  stream and advances.  \<open>consulted\<close> counts the calls made so far.
\<close>

record randomizer =
  stream :: "nat \<Rightarrow> jsnum"
  consulted :: nat

definition randomizer_next :: "randomizer \<Rightarrow> jsnum \<times> randomizer" where
  "randomizer_next r = (stream r (consulted r), r\<lparr>consulted := Suc (consulted r)\<rparr>)"

text \<open>\<^verbatim>\<open>[...new Set(exclude)]\<close>: the distinct values in order of first occurrence.\<close>

fun uniq :: "'a list \<Rightarrow> 'a list" where
  "uniq [] = []"
| "uniq (x # xs) = x # filter (\<lambda>y. y \<noteq> x) (uniq xs)"

text \<open>The closure \<^verbatim>\<open>generate\<close> of \<^verbatim>\<open>int\<close>: one draw, scaled into the range.\<close>

definition int_generate ::
  "(rat \<Rightarrow> jsnum) \<Rightarrow> jsnum \<Rightarrow> jsnum \<Rightarrow> randomizer \<Rightarrow> jsnum \<times> randomizer" where
  "int_generate fl effectiveMin effectiveMax r =
     (case randomizer_next r of (realV, r') \<Rightarrow>
        (Math_floor
           (js_add fl
              (js_mul fl realV (js_sub fl (js_add fl effectiveMax (Fin 1)) effectiveMin))
              effectiveMin),
         r'))"

text \<open>
  \<^verbatim>\<open>let result = generate(); while (uniqueExclude.includes(result)) result = generate();\<close>
  The loop need not end, so the function is partial: \<open>None\<close> is "does not return".
\<close>

partial_function (option) int_loop ::
  "(rat \<Rightarrow> jsnum) \<Rightarrow> jsnum list \<Rightarrow> jsnum \<Rightarrow> jsnum \<Rightarrow> randomizer \<Rightarrow> (jsnum \<times> randomizer) option"
where
  "int_loop fl uniqueExclude effectiveMin effectiveMax r =
     (case int_generate fl effectiveMin effectiveMax r of (result, r') \<Rightarrow>
        if result \<in> set uniqueExclude
        then int_loop fl uniqueExclude effectiveMin effectiveMax r'
        else Some (result, r'))"

declare int_loop.simps [code]

text \<open>
  The head of \<^verbatim>\<open>int\<close>: the default argument \<^verbatim>\<open>{}\<close>, the number form turned into
  \<^verbatim>\<open>{ max: options }\<close>, and the destructuring with its three defaults.
\<close>

definition normalize_options :: "int_options option \<Rightarrow> int_options" where
  "normalize_options options =
     (case options of
        None \<Rightarrow> ObjectArg None None None
      | Some (NumberArg n) \<Rightarrow> ObjectArg None (Some n) None
      | Some (ObjectArg a b c) \<Rightarrow> ObjectArg a b c)"

definition options_min :: "int_options option \<Rightarrow> jsnum" where
  "options_min options =
     (case opt_min (normalize_options options) of None \<Rightarrow> Fin 0 | Some v \<Rightarrow> v)"

definition options_max :: "int_options option \<Rightarrow> jsnum" where
  "options_max options =
     (case opt_max (normalize_options options) of None \<Rightarrow> MAX_SAFE_INTEGER | Some v \<Rightarrow> v)"

definition options_exclude :: "int_options option \<Rightarrow> jsnum list" where
  "options_exclude options =
     (case opt_exclude (normalize_options options) of None \<Rightarrow> [] | Some v \<Rightarrow> v)"

text \<open>
  \<^verbatim>\<open>int\<close> itself.  The result is \<open>None\<close> when the call does not return, otherwise the
  thrown error or the returned number, together with the randomizer as the call leaves it.
\<close>

definition number_int ::
  "(rat \<Rightarrow> jsnum) \<Rightarrow> int_options option \<Rightarrow> randomizer \<Rightarrow> ((FakerError + jsnum) \<times> randomizer) option"
where
  "number_int fl options r =
     (let minV = options_min options;
          maxV = options_max options;
          exclude = options_exclude options;
          effectiveMin = Math_ceil minV;
          effectiveMax = Math_floor maxV;
          uniqueExclude =
            filter (\<lambda>value. js_ge value effectiveMin \<and> js_le value effectiveMax) (uniq exclude)
      in
        if js_strict_eq effectiveMin effectiveMax then Some (Inr effectiveMin, r)
        else if js_lt effectiveMax effectiveMin then
          (if js_ge maxV minV then Some (Inl (NoIntegerValueBetween minV maxV), r)
           else Some (Inl (MaxShouldBeGreaterThanMin minV maxV), r))
        else if js_ge (Fin (of_nat (length uniqueExclude)))
                  (js_add fl (js_sub fl effectiveMax effectiveMin) (Fin 1))
        then Some (Inl MoreValuesInExcludeList, r)
        else
          (case int_loop fl uniqueExclude effectiveMin effectiveMax r of
             None \<Rightarrow> None
           | Some (result, r') \<Rightarrow> Some (Inr result, r')))"

section \<open>The documentation generator\<close>

text \<open>
  A page as \<^verbatim>\<open>generate\<close> reads it: the title \<^verbatim>\<open>text\<close>, the \<^verbatim>\<open>link\<close>, the
  \<^verbatim>\<open>diff\<close> summary and the rendered content.  The types of the last two belong to the
  page processors and stay parameters.
\<close>

record ('d, 'c) page =
  page_text :: string
  page_link :: string
  page_diff :: 'd
  page_content :: 'c

text \<open>
  \<^verbatim>\<open>Array.prototype.sort(compareFn)\<close>: a stable sort; \<^verbatim>\<open>compareFn(a, b) > 0\<close> puts
  \<open>a\<close> after \<open>b\<close>.  Insertion from the right keeps elements that compare equal in
  their original order.
\<close>

fun insert_by :: "('a \<Rightarrow> 'a \<Rightarrow> int) \<Rightarrow> 'a \<Rightarrow> 'a list \<Rightarrow> 'a list" where
  "insert_by compareFn x [] = [x]"
| "insert_by compareFn x (y # ys) =
     (if compareFn x y > 0 then y # insert_by compareFn x ys else x # y # ys)"

definition array_sort :: "('a \<Rightarrow> 'a \<Rightarrow> int) \<Rightarrow> 'a list \<Rightarrow> 'a list" where
  "array_sort compareFn xs = foldr (insert_by compareFn) xs []"

text \<open>
  \<^verbatim>\<open>Object.fromEntries\<close>: the entries are stored one after the other, a later entry
  replacing an earlier one with the same key.
\<close>

definition Object_fromEntries :: "('k \<times> 'v) list \<Rightarrow> ('k \<rightharpoonup> 'v)" where
  "Object_fromEntries entries = foldl (\<lambda>obj (k, v). obj(k \<mapsto> v)) Map.empty entries"

text \<open>
  The array \<^verbatim>\<open>pages\<close> of \<^verbatim>\<open>generate\<close>.  The results of \<^verbatim>\<open>processFakerClasses\<close>,
  \<^verbatim>\<open>processModules\<close>, \<^verbatim>\<open>processFakerRandomizer\<close> and \<^verbatim>\<open>processFakerUtilities\<close>
  are the arguments, as is \<^verbatim>\<open>String.prototype.localeCompare\<close>.
\<close>

definition generate_pages ::
  "(string \<Rightarrow> string \<Rightarrow> int) \<Rightarrow> ('d, 'c) page list \<Rightarrow> ('d, 'c) page list \<Rightarrow>
   ('d, 'c) page \<Rightarrow> ('d, 'c) page \<Rightarrow> ('d, 'c) page list" where
  "generate_pages localeCompare classes modules randomizerPage utilitiesPage =
     classes
     @ array_sort (\<lambda>a b. localeCompare (page_text a) (page_text b)) modules
     @ [randomizerPage, utilitiesPage]"

text \<open>
  What \<^verbatim>\<open>generate\<close> hands to the three index writers: the argument of
  \<^verbatim>\<open>writeApiPagesIndex\<close>, of \<^verbatim>\<open>writeApiDiffIndex\<close> and of \<^verbatim>\<open>writeApiSearchIndex\<close>.
  The function has no \<^verbatim>\<open>throw\<close> and no test on the titles.
\<close>

record ('d, 'c) generated =
  apiPagesIndex :: "(string \<times> string) list"
  apiDiffIndex :: "string \<rightharpoonup> 'd"
  apiSearchIndex :: "('d, 'c) page list"

definition generate ::
  "(string \<Rightarrow> string \<Rightarrow> int) \<Rightarrow> ('d, 'c) page list \<Rightarrow> ('d, 'c) page list \<Rightarrow>
   ('d, 'c) page \<Rightarrow> ('d, 'c) page \<Rightarrow> ('d, 'c) generated" where
  "generate localeCompare classes modules randomizerPage utilitiesPage =
     (let pages = generate_pages localeCompare classes modules randomizerPage utilitiesPage
      in \<lparr>apiPagesIndex = map (\<lambda>p. (page_text p, page_link p)) pages,
          apiDiffIndex = Object_fromEntries (map (\<lambda>p. (page_text p, page_diff p)) pages),
          apiSearchIndex = pages\<rparr>)"

text \<open>
  A concrete comparator for the examples: the order of the code units.  It returns a
  negative number, zero or a positive number as \<^verbatim>\<open>localeCompare\<close> does.
\<close>

definition codeUnitCompare :: "string \<Rightarrow> string \<Rightarrow> int" where
  "codeUnitCompare a b = (if a < b then -1 else if a = b then 0 else 1)"

section \<open>The verification harness\<close>

subsection \<open>Strings and the regular expressions of the harness\<close>

text \<open>
  A string is a list of characters, one per code unit; the model covers the strings
  whose code units are below 256.  Each regular expression of the harness is written out
  as the matcher it denotes: a function that tries the expression at the head of the
  text, and a scan that tries every position from left to right and resumes after a
  match.
\<close>

text \<open>The line terminators (below 256), which \<^verbatim>\<open>.\<close> does not match.\<close>

definition isLineTerminator :: "char \<Rightarrow> bool" where
  "isLineTerminator c = (c = CHR 0x0A \<or> c = CHR 0x0D)"

text \<open>\<^verbatim>\<open>str.includes(search)\<close>, also the test of \<^verbatim>\<open>expect(str).toContain(search)\<close>.\<close>

fun str_includes :: "string \<Rightarrow> string \<Rightarrow> bool" where
  "str_includes [] search = (search = [])"
| "str_includes (c # cs) search = (prefix search (c # cs) \<or> str_includes cs search)"

text \<open>\<^verbatim>\<open>parts.join(separator)\<close>.\<close>

fun join :: "string list \<Rightarrow> string \<Rightarrow> string" where
  "join [] separator = []"
| "join [x] separator = x"
| "join (x # y # ys) separator = x @ separator @ join (y # ys) separator"

text \<open>
  \<^verbatim>\<open>str.toLowerCase()\<close>: below 256 the letters with a lower case are A to Z and the
  Latin-1 capitals 0xC0 to 0xDE without the multiplication sign 0xD7; the lower case is
  32 code units up.
\<close>

definition lowerChar :: "char \<Rightarrow> char" where
  "lowerChar c =
     (let n = (of_char c :: nat)
      in if (65 \<le> n \<and> n \<le> 90) \<or> (192 \<le> n \<and> n \<le> 222 \<and> n \<noteq> 215)
         then char_of (n + 32) else c)"

definition toLowerCase :: "string \<Rightarrow> string" where
  "toLowerCase s = map lowerChar s"

text \<open>
  \<^verbatim>\<open>str.trim()\<close>: white space and line terminators are removed from both ends; below
  256 these are tab, line feed, vertical tab, form feed, carriage return, space and the
  no-break space.
\<close>

definition isTrimChar :: "char \<Rightarrow> bool" where
  "isTrimChar c = (c \<in> {CHR 0x09, CHR 0x0A, CHR 0x0B, CHR 0x0C, CHR 0x0D, CHR 0x20, CHR 0xA0})"

definition trim :: "string \<Rightarrow> string" where
  "trim s = rev (dropWhile isTrimChar (rev (dropWhile isTrimChar s)))"

text \<open>
  \<^verbatim>\<open>/\[([^\]]+)\]\(([^)]+)\)/\<close> at the head of the text: the second group and the text
  after the match.  A greedy class that must be followed by the one character it excludes
  has a single way to match, the longest run, so no shorter run is tried.
\<close>

fun markdownLinkAt :: "string \<Rightarrow> (string \<times> string) option" where
  "markdownLinkAt [] = None"
| "markdownLinkAt (c # cs) =
     (if c = CHR ''[''
      then
        (let label = takeWhile (\<lambda>d. d \<noteq> CHR '']'') cs;
             afterLabel = dropWhile (\<lambda>d. d \<noteq> CHR '']'') cs
         in if label \<noteq> [] \<and> prefix '']('' afterLabel
            then
              (let url = takeWhile (\<lambda>d. d \<noteq> CHR '')'') (drop 2 afterLabel);
                   afterUrl = dropWhile (\<lambda>d. d \<noteq> CHR '')'') (drop 2 afterLabel)
               in if url \<noteq> [] \<and> afterUrl \<noteq> [] then Some (url, tl afterUrl) else None)
            else None)
      else None)"

lemma markdownLinkAt_shorter:
  assumes "markdownLinkAt s = Some (url, rest)"
  shows "length rest < length s"
proof (cases s)
  case Nil
  with assms show ?thesis by simp
next
  case (Cons c cs)
  let ?a = "dropWhile (\<lambda>d. d \<noteq> CHR '']'') cs"
  let ?b = "dropWhile (\<lambda>d. d \<noteq> CHR '')'') (drop 2 ?a)"
  from assms Cons have "rest = tl ?b"
    by (auto simp: Let_def split: if_splits)
  moreover have "length (tl ?b) \<le> length ?b" by simp
  moreover have "length ?b \<le> length (drop 2 ?a)" by (rule length_dropWhile_le)
  moreover have "length (drop 2 ?a) \<le> length ?a" by simp
  moreover have "length ?a \<le> length cs" by (rule length_dropWhile_le)
  ultimately show ?thesis using Cons by simp
qed

text \<open>\<^verbatim>\<open>[...description.matchAll(linkRegexp)].map((m) => m[2])\<close> for the markdown links.\<close>

function markdownLinks :: "string \<Rightarrow> string list" where
  "markdownLinks [] = []"
| "markdownLinks (c # cs) =
     (case markdownLinkAt (c # cs) of
        Some (url, rest) \<Rightarrow> url # markdownLinks rest
      | None \<Rightarrow> markdownLinks cs)"
  by pat_completeness auto
termination
  by (relation "measure length")
    (auto dest!: markdownLinkAt_shorter simp del: markdownLinkAt.simps)

text \<open>\<^verbatim>\<open>/(href)="([^"]+)"/\<close> at the head of the text, and its scan.\<close>

definition hrefAt :: "string \<Rightarrow> (string \<times> string) option" where
  "hrefAt s =
     (if prefix (''href='' @ [CHR 0x22]) s
      then
        (let url = takeWhile (\<lambda>d. d \<noteq> CHR 0x22) (drop 6 s);
             afterUrl = dropWhile (\<lambda>d. d \<noteq> CHR 0x22) (drop 6 s)
         in if url \<noteq> [] \<and> afterUrl \<noteq> [] then Some (url, tl afterUrl) else None)
      else None)"

lemma hrefAt_shorter:
  "hrefAt s = Some (url, rest) \<Longrightarrow> length rest < length s"
proof -
  assume m: "hrefAt s = Some (url, rest)"
  let ?b = "dropWhile (\<lambda>d. d \<noteq> CHR 0x22) (drop 6 s)"
  from m have p: "prefix (''href='' @ [CHR 0x22]) s" and r: "rest = tl ?b"
    by (auto simp: hrefAt_def Let_def split: if_splits)
  from p have "6 \<le> length s" by (auto simp: prefix_def)
  moreover have "length (tl ?b) \<le> length ?b" by simp
  moreover have "length ?b \<le> length (drop 6 s)" by (rule length_dropWhile_le)
  ultimately show ?thesis using r by simp
qed

function hrefLinks :: "string \<Rightarrow> string list" where
  "hrefLinks [] = []"
| "hrefLinks (c # cs) =
     (case hrefAt (c # cs) of
        Some (url, rest) \<Rightarrow> url # hrefLinks rest
      | None \<Rightarrow> hrefLinks cs)"
  by pat_completeness auto
termination
  by (relation "measure length") (auto dest!: hrefAt_shorter)

text \<open>\<^verbatim>\<open>/^https?:\/\//\<close>.\<close>

definition matchesHttp :: "string \<Rightarrow> bool" where
  "matchesHttp link = (prefix ''http://'' link \<or> prefix ''https://'' link)"

text \<open>
  \<^verbatim>\<open>link.replace(/.*fakerjs.dev\//, '/')\<close>.  \<open>fakerjsDevAt\<close> is the tail
  \<^verbatim>\<open>fakerjs.dev\/\<close> of the expression at the head of the text (its dot matches any
  character but a line terminator); \<open>dotStarFakerjsDevAt\<close> is the whole expression at
  the head: the greedy \<^verbatim>\<open>.*\<close> first takes one more character when it can, and gives it
  back when the rest then fails.  Both return the text after the match.
\<close>

definition fakerjsDevAt :: "string \<Rightarrow> string option" where
  "fakerjsDevAt s =
     (if prefix ''fakerjs'' s \<and> 12 \<le> length s \<and> \<not> isLineTerminator (s ! 7)
         \<and> take 4 (drop 8 s) = ''dev/''
      then Some (drop 12 s) else None)"

fun dotStarFakerjsDevAt :: "string \<Rightarrow> string option" where
  "dotStarFakerjsDevAt [] = fakerjsDevAt []"
| "dotStarFakerjsDevAt (c # cs) =
     (if isLineTerminator c then fakerjsDevAt (c # cs)
      else
        (case dotStarFakerjsDevAt cs of
           Some rest \<Rightarrow> Some rest
         | None \<Rightarrow> fakerjsDevAt (c # cs)))"

fun replaceFakerjsDev :: "string \<Rightarrow> string" where
  "replaceFakerjsDev [] = []"
| "replaceFakerjsDev (c # cs) =
     (case dotStarFakerjsDevAt (c # cs) of
        Some rest \<Rightarrow> ''/'' @ rest
      | None \<Rightarrow> c # replaceFakerjsDev cs)"

text \<open>
  \<^verbatim>\<open>link.replace(/\(.*/, '')\<close>: from the first opening parenthesis, the run of characters
  up to the next line terminator is removed.
\<close>

fun replaceParenRest :: "string \<Rightarrow> string" where
  "replaceParenRest [] = []"
| "replaceParenRest (c # cs) =
     (if c = CHR ''('' then dropWhile (\<lambda>d. \<not> isLineTerminator d) cs
      else c # replaceParenRest cs)"

text \<open>\<^verbatim>\<open>description.replace(/<[^>]+>/g, '')\<close>: every match is removed.\<close>

definition htmlTagAt :: "string \<Rightarrow> string option" where
  "htmlTagAt s =
     (if prefix ''<'' s
      then
        (let body = takeWhile (\<lambda>d. d \<noteq> CHR ''>'') (drop 1 s);
             afterBody = dropWhile (\<lambda>d. d \<noteq> CHR ''>'') (drop 1 s)
         in if body \<noteq> [] \<and> afterBody \<noteq> [] then Some (tl afterBody) else None)
      else None)"

lemma htmlTagAt_shorter:
  "htmlTagAt s = Some rest \<Longrightarrow> length rest < length s"
proof -
  assume m: "htmlTagAt s = Some rest"
  let ?b = "dropWhile (\<lambda>d. d \<noteq> CHR ''>'') (drop 1 s)"
  from m have p: "prefix ''<'' s" and r: "rest = tl ?b"
    by (auto simp: htmlTagAt_def Let_def split: if_splits)
  from p have "1 \<le> length s" by (auto simp: prefix_def)
  moreover have "length (tl ?b) \<le> length ?b" by simp
  moreover have "length ?b \<le> length (drop 1 s)" by (rule length_dropWhile_le)
  ultimately show ?thesis using r by simp
qed

function stripHtmlTags :: "string \<Rightarrow> string" where
  "stripHtmlTags [] = []"
| "stripHtmlTags (c # cs) =
     (case htmlTagAt (c # cs) of
        Some rest \<Rightarrow> stripHtmlTags rest
      | None \<Rightarrow> c # stripHtmlTags cs)"
  by pat_completeness auto
termination
  by (relation "measure length") (auto dest!: htmlTagAt_shorter)

text \<open>
  \<^verbatim>\<open>/(?<!\.)faker[^.]*(?=\.)/\<close> at the head of the text, \<open>previous\<close> being the
  character before the head if there is one: the match and the text after it, which
  starts with the dot the lookahead has seen.
\<close>

definition fakerImportAt :: "char option \<Rightarrow> string \<Rightarrow> (string \<times> string) option" where
  "fakerImportAt previous s =
     (if previous \<noteq> Some CHR ''.'' \<and> prefix ''faker'' s
      then
        (let name = ''faker'' @ takeWhile (\<lambda>d. d \<noteq> CHR ''.'') (drop 5 s);
             rest = dropWhile (\<lambda>d. d \<noteq> CHR ''.'') (drop 5 s)
         in if rest \<noteq> [] then Some (name, rest) else None)
      else None)"

lemma fakerImportAt_shorter:
  assumes "fakerImportAt previous s = Some (name, rest)"
  shows "length rest < length s"
proof -
  let ?b = "dropWhile (\<lambda>d. d \<noteq> CHR ''.'') (drop 5 s)"
  from assms have p: "prefix ''faker'' s" and r: "rest = ?b"
    by (auto simp: fakerImportAt_def Let_def split: if_splits)
  from p have "5 \<le> length s" by (auto simp: prefix_def)
  moreover have "length ?b \<le> length (drop 5 s)" by (rule length_dropWhile_le)
  ultimately show ?thesis using r by simp
qed

text \<open>\<^verbatim>\<open>examples.match(/(?<!\.)faker[^.]*(?=\.)/g)\<close>, the empty list standing for \<^verbatim>\<open>null\<close>.\<close>

function fakerImports :: "char option \<Rightarrow> string \<Rightarrow> string list" where
  "fakerImports previous [] = []"
| "fakerImports previous (c # cs) =
     (case fakerImportAt previous (c # cs) of
        Some (name, rest) \<Rightarrow> name # fakerImports (Some (last name)) rest
      | None \<Rightarrow> fakerImports (Some c) cs)"
  by pat_completeness auto
termination
  by (relation "measure (\<lambda>(previous, s). length s)") (auto dest!: fakerImportAt_shorter)

subsection \<open>The project and the allowed targets\<close>

text \<open>
  An object is the list of its entries.  \<^verbatim>\<open>loadProjectModules()\<close> gives, by module
  name, the module and its methods by name.  \<^verbatim>\<open>extractModuleFieldName\<close> is a parameter.
\<close>

definition Object_keys :: "(string \<times> 'v) list \<Rightarrow> string list" where
  "Object_keys obj = map fst obj"

definition Object_values :: "(string \<times> 'v) list \<Rightarrow> 'v list" where
  "Object_values obj = map snd obj"

type_synonym ('m, 's) project_modules = "(string \<times> ('m \<times> (string \<times> 's) list)) list"

definition allowedReferences :: "('m \<Rightarrow> string) \<Rightarrow> ('m, 's) project_modules \<Rightarrow> string set" where
  "allowedReferences extractModuleFieldName modules =
     set (foldl
            (\<lambda>acc (moduleV, methods).
               let moduleFieldName = extractModuleFieldName moduleV
               in acc @ map (\<lambda>methodName. ''faker.'' @ moduleFieldName @ ''.'' @ methodName)
                          (Object_keys methods))
            [] (Object_values modules))"

definition allowedLinks :: "('m \<Rightarrow> string) \<Rightarrow> ('m, 's) project_modules \<Rightarrow> string set" where
  "allowedLinks extractModuleFieldName modules =
     set (foldl
            (\<lambda>acc (moduleV, methods).
               let moduleFieldName = extractModuleFieldName moduleV
               in acc @ [''/api/'' @ moduleFieldName @ ''.html'']
                    @ map (\<lambda>methodName.
                             ''/api/'' @ moduleFieldName @ ''.html#'' @ toLowerCase methodName)
                          (Object_keys methods))
            [] (Object_values modules))"

subsection \<open>Assertions\<close>

text \<open>
  A test ends at its first failed \<^verbatim>\<open>expect\<close>, or at a rejected import.  A check is
  \<open>Inr ()\<close> when it passes and \<open>Inl\<close> of the failure otherwise.  An assertion error
  carries the message the test gives to \<^verbatim>\<open>expect\<close>, the empty text when it gives none.
\<close>

datatype failure = AssertionError string | ImportRejected

definition expect :: "bool \<Rightarrow> string \<Rightarrow> failure + unit" where
  "expect holds message = (if holds then Inr () else Inl (AssertionError message))"

definition andThen :: "failure + unit \<Rightarrow> failure + unit \<Rightarrow> failure + unit" where
  "andThen first second = (case first of Inl e \<Rightarrow> Inl e | Inr _ \<Rightarrow> second)"

fun forEach :: "('a \<Rightarrow> failure + unit) \<Rightarrow> 'a list \<Rightarrow> failure + unit" where
  "forEach f [] = Inr ()"
| "forEach f (x # xs) = (case f x of Inl e \<Rightarrow> Inl e | Inr _ \<Rightarrow> forEach f xs)"

text \<open>\<^verbatim>\<open>assertDescription\<close>; \<^verbatim>\<open>validator.isURL\<close> is a parameter.\<close>

definition assertDescription ::
  "(string \<Rightarrow> bool) \<Rightarrow> string set \<Rightarrow> string \<Rightarrow> bool \<Rightarrow> failure + unit" where
  "assertDescription isURL allowed description isHtml =
     (let links = (if isHtml then hrefLinks description else markdownLinks description)
      in forEach
           (\<lambda>link.
              andThen
                (if \<not> isHtml
                 then andThen (expect (matchesHttp link) '''')
                        (expect (isURL link) '''')
                 else Inr ())
                (if (if isHtml then prefix ''/api/'' link
                     else str_includes link ''fakerjs.dev/api/'')
                 then expect (replaceFakerjsDev link \<in> allowed)
                        (link @ '' to point to a valid target'')
                 else Inr ()))
           links)"

subsection \<open>Materializing the examples\<close>

text \<open>
  The hook \<^verbatim>\<open>beforeAll\<close> of a method.  \<open>uniq\<close> is \<^verbatim>\<open>[...new Set(matches)]\<close>;
  \<^verbatim>\<open>new Set(null)\<close> is the empty set, as is the set of the empty list.
\<close>

definition materializedImports :: "string \<Rightarrow> string list" where
  "materializedImports examples = uniq (fakerImports None examples)"

definition materialize :: "string \<Rightarrow> string" where
  "materialize examples =
     ''import { '' @ join (materializedImports examples) '', ''
       @ '' } from '../../../../../src';'' @ [CHR 0x0A, CHR 0x0A] @ examples"

text \<open>
  The scan in the words of the specification, for comparison: every bare identifier that
  is immediately followed by a dot and not itself preceded by a dot.  An identifier
  starts with a letter, an underscore or a dollar sign, goes on with these or digits, and
  is taken whole.
\<close>

definition isIdentifierStart :: "char \<Rightarrow> bool" where
  "isIdentifierStart c =
     (let n = (of_char c :: nat)
      in (65 \<le> n \<and> n \<le> 90) \<or> (97 \<le> n \<and> n \<le> 122) \<or> c = CHR ''_'' \<or> c = CHR ''$'')"

definition isIdentifierPart :: "char \<Rightarrow> bool" where
  "isIdentifierPart c = (isIdentifierStart c \<or> (48 \<le> (of_char c :: nat) \<and> (of_char c :: nat) \<le> 57))"

definition spec_identifierAt :: "char option \<Rightarrow> string \<Rightarrow> (string \<times> string) option" where
  "spec_identifierAt previous s =
     (case s of
        [] \<Rightarrow> None
      | c # cs \<Rightarrow>
          if isIdentifierStart c
             \<and> (case previous of None \<Rightarrow> True | Some p \<Rightarrow> p \<noteq> CHR ''.'' \<and> \<not> isIdentifierPart p)
          then
            (let name = c # takeWhile isIdentifierPart cs;
                 rest = dropWhile isIdentifierPart cs
             in if prefix ''.'' rest then Some (name, rest) else None)
          else None)"

lemma spec_identifierAt_shorter:
  assumes "spec_identifierAt previous s = Some (name, rest)"
  shows "length rest < length s"
proof (cases s)
  case Nil
  with assms show ?thesis by (simp add: spec_identifierAt_def)
next
  case (Cons c cs)
  with assms have "rest = dropWhile isIdentifierPart cs"
    by (auto simp: spec_identifierAt_def Let_def split: if_splits)
  moreover have "length (dropWhile isIdentifierPart cs) \<le> length cs"
    by (rule length_dropWhile_le)
  ultimately show ?thesis using Cons by simp
qed

function spec_identifiers :: "char option \<Rightarrow> string \<Rightarrow> string list" where
  "spec_identifiers previous [] = []"
| "spec_identifiers previous (c # cs) =
     (case spec_identifierAt previous (c # cs) of
        Some (name, rest) \<Rightarrow> name # spec_identifiers (Some (last name)) rest
      | None \<Rightarrow> spec_identifiers (Some c) cs)"
  by pat_completeness auto
termination
  by (relation "measure (\<lambda>(previous, s). length s)") (auto dest!: spec_identifierAt_shorter)

definition spec_materializedImports :: "string \<Rightarrow> string list" where
  "spec_materializedImports examples = uniq (spec_identifiers None examples)"

text \<open>
  The example texts in which \<open>faker\<close> only names identifiers: wherever \<open>faker\<close>
  stands not right after a dot and with a dot somewhere after it, it does not continue an
  identifier, and all the characters from it up to the next dot belong to an identifier.
\<close>

fun fakerNamesIdentifier :: "char option \<Rightarrow> string \<Rightarrow> bool" where
  "fakerNamesIdentifier previous [] = True"
| "fakerNamesIdentifier previous (c # cs) =
     ((prefix ''faker'' (c # cs) \<and> previous \<noteq> Some CHR ''.'' \<and> CHR ''.'' \<in> set cs
         \<longrightarrow> (case previous of None \<Rightarrow> True | Some p \<Rightarrow> \<not> isIdentifierPart p)
             \<and> (\<forall>d \<in> set (takeWhile (\<lambda>d. d \<noteq> CHR ''.'') cs). isIdentifierPart d))
      \<and> fakerNamesIdentifier (Some c) cs)"

text \<open>
  The file system, as far as the hook touches it: the directories that exist and the
  content of the files.  \<^verbatim>\<open>mkdirSync(dir, { recursive: true })\<close> makes the directory
  exist and accepts one that exists already; \<^verbatim>\<open>writeFileSync\<close> creates the file or
  replaces its content.  \<^verbatim>\<open>path.resolve\<close> and the directory \<^verbatim>\<open>tempDir\<close> are parameters.
\<close>

record filesystem =
  directories :: "string set"
  fileContent :: "string \<rightharpoonup> string"

definition mkdirSync :: "string \<Rightarrow> filesystem \<Rightarrow> filesystem" where
  "mkdirSync dir fs = fs\<lparr>directories := insert dir (directories fs)\<rparr>"

definition writeFileSync :: "string \<Rightarrow> string \<Rightarrow> filesystem \<Rightarrow> filesystem" where
  "writeFileSync path content fs = fs\<lparr>fileContent := (fileContent fs)(path \<mapsto> content)\<rparr>"

definition resolveDirToModule ::
  "(string \<Rightarrow> string \<Rightarrow> string) \<Rightarrow> string \<Rightarrow> string \<Rightarrow> string" where
  "resolveDirToModule resolve tempDir moduleName = resolve tempDir moduleName"

definition resolvePathToMethodFile ::
  "(string \<Rightarrow> string \<Rightarrow> string) \<Rightarrow> string \<Rightarrow> string \<Rightarrow> string \<Rightarrow> string" where
  "resolvePathToMethodFile resolve tempDir moduleName methodName =
     resolve (resolveDirToModule resolve tempDir moduleName) (methodName @ ''.ts'')"

text \<open>\<open>examples\<close> is the value of \<^verbatim>\<open>extractJoinedRawExamples(signature)\<close>.\<close>

definition beforeAllMethod ::
  "(string \<Rightarrow> string \<Rightarrow> string) \<Rightarrow> string \<Rightarrow> string \<Rightarrow> string \<Rightarrow> string \<Rightarrow>
   filesystem \<Rightarrow> filesystem" where
  "beforeAllMethod resolve tempDir moduleName methodName examples fs =
     (let dir = resolveDirToModule resolve tempDir moduleName;
          fs1 = mkdirSync dir fs;
          path = resolvePathToMethodFile resolve tempDir moduleName methodName
      in writeFileSync path (materialize examples) fs1)"

subsection \<open>The tests of a method\<close>

text \<open>
  A dynamic import runs the file it names.  What the tests see of it: whether the
  promise is fulfilled (with the module, which is never undefined) or rejected, and the
  number of calls of \<^verbatim>\<open>console.warn\<close> that the spy holds once the promise is settled.
\<close>

datatype settled = Fulfilled | Rejected

record import_outcome =
  promise :: settled
  warnCalls :: nat

text \<open>\<^verbatim>\<open>verify @example tag\<close>.\<close>

definition verify_example_tag ::
  "(string \<Rightarrow> string \<Rightarrow> string) \<Rightarrow> string \<Rightarrow> (string \<Rightarrow> import_outcome) \<Rightarrow>
   string \<Rightarrow> string \<Rightarrow> string \<Rightarrow> failure + unit" where
  "verify_example_tag resolve tempDir dynamicImport moduleName methodName examples =
     andThen
       (expect (examples \<noteq> '''') (moduleName @ ''.'' @ methodName @ '' to have examples''))
       (let path = resolvePathToMethodFile resolve tempDir moduleName methodName
        in case promise (dynamicImport (path @ ''?scope=example'')) of
             Fulfilled \<Rightarrow> Inr ()
           | Rejected \<Rightarrow> Inl ImportRejected)"

text \<open>
  \<^verbatim>\<open>verify @deprecated tag\<close>.  \<open>deprecated\<close> is the value of
  \<^verbatim>\<open>extractDeprecated(signature)\<close>, \<open>None\<close> for \<^verbatim>\<open>undefined\<close>, and
  \<open>deprecatedContent\<close> the value of \<^verbatim>\<open>extractTagContent('@deprecated', signature)\<close>.
\<close>

definition verify_deprecated_tag ::
  "(string \<Rightarrow> string \<Rightarrow> string) \<Rightarrow> string \<Rightarrow> (string \<Rightarrow> import_outcome) \<Rightarrow>
   string \<Rightarrow> string \<Rightarrow> string option \<Rightarrow> string list \<Rightarrow> failure + unit" where
  "verify_deprecated_tag resolve tempDir dynamicImport moduleName methodName deprecated
       deprecatedContent =
     (let path = resolvePathToMethodFile resolve tempDir moduleName methodName;
          outcome = dynamicImport (path @ ''?scope=deprecated'')
      in case promise outcome of
           Rejected \<Rightarrow> Inl ImportRejected
         | Fulfilled \<Rightarrow>
             (let deprecatedFlag = (deprecated \<noteq> None)
              in if deprecatedFlag
                 then andThen
                        (expect (0 < warnCalls outcome) '''')
                        (expect (join deprecatedContent '''' \<noteq> '''')
                           ''@deprecated tag without message'')
                 else expect (warnCalls outcome = 0) ''''))"

text \<open>
  \<^verbatim>\<open>verify @param tags\<close>.  \<open>parameters\<close> is the list
  \<^verbatim>\<open>(await analyzeSignature(signature, '', methodName)).parameters\<close>, and the constant
  \<^verbatim>\<open>MISSING_DESCRIPTION\<close> is a parameter.
\<close>

record parameter =
  param_name :: string
  param_description :: string

definition verify_param_tags ::
  "string \<Rightarrow> (string \<Rightarrow> bool) \<Rightarrow> string set \<Rightarrow> parameter list \<Rightarrow> failure + unit" where
  "verify_param_tags MISSING_DESCRIPTION isURL allowed parameters =
     forEach
       (\<lambda>param.
          (let plainDescription = trim (stripHtmlTags (param_description param))
           in andThen
                (expect (plainDescription \<noteq> MISSING_DESCRIPTION)
                   (''Expect param '' @ param_name param @ '' to have a description''))
                (assertDescription isURL allowed (param_description param) True)))
       parameters"

text \<open>\<^verbatim>\<open>verify @see tags\<close>.  \<open>seeAlsos\<close> is the value of \<^verbatim>\<open>extractSeeAlsos(signature)\<close>.\<close>

definition verify_see_tags :: "string set \<Rightarrow> string list \<Rightarrow> failure + unit" where
  "verify_see_tags allowed seeAlsos =
     forEach
       (\<lambda>link.
          if prefix ''faker.'' link
          then andThen
                 (expect (str_includes link ''('') ''Expect method reference to contain ()'')
                 (andThen
                    (expect (str_includes link '')'') ''Expect method reference to contain ()'')
                    (expect (replaceParenRest link \<in> allowed) ''''))
          else Inr ())
       seeAlsos"

text \<open>
  Modelled from the spec: the constant \<^verbatim>\<open>MISSING_DESCRIPTION\<close> is declared in
  \<^verbatim>\<open>scripts/apidoc/typedoc\<close>, which is not among the sources.  The specification calls it
  a reserved sentinel value, distinct from an explicit empty string, that still counts as
  missing when it stands between \<^verbatim>\<open><p>\<close> and \<^verbatim>\<open></p>\<close>: it is not empty, holds no
  \<^verbatim>\<open><\<close> and has no white space at its ends.
\<close>

definition reservedSentinel :: "string \<Rightarrow> bool" where
  "reservedSentinel MISSING_DESCRIPTION =
     (MISSING_DESCRIPTION \<noteq> '''' \<and> CHR ''<'' \<notin> set MISSING_DESCRIPTION
      \<and> trim MISSING_DESCRIPTION = MISSING_DESCRIPTION)"

text \<open>
  For the examples, a stand-in for \<^verbatim>\<open>validator.isURL\<close>: it accepts a text that starts
  with \<open>http://\<close> or \<open>https://\<close> and holds no space.
\<close>

definition exampleIsURL :: "string \<Rightarrow> bool" where
  "exampleIsURL url = (matchesHttp url \<and> CHR '' '' \<notin> set url)"

text \<open>
  For the examples, a stand-in for \<^verbatim>\<open>path.resolve\<close> that joins with a slash, and an
  import that is fulfilled after one call of \<^verbatim>\<open>console.warn\<close>.
\<close>

definition exampleResolve :: "string \<Rightarrow> string \<Rightarrow> string" where
  "exampleResolve a b = a @ ''/'' @ b"

definition warnsOnce :: "string \<Rightarrow> import_outcome" where
  "warnsOnce file = \<lparr>promise = Fulfilled, warnCalls = 1\<rparr>"

section \<open>Properties of NumberModule.int\<close>

text \<open>
  Claim C10.  When \<^verbatim>\<open>Math.ceil(min) === Math.floor(max)\<close>, the call returns that value:
  it does return, the randomizer is left exactly as it was (no call of \<^verbatim>\<open>next\<close>), and
  the exclude list plays no part, so the value is returned even when it is excluded and
  no \<^verbatim>\<open>FakerError\<close> is thrown.
\<close>

theorem int_equal_bounds_returns_bound:
  assumes "js_strict_eq (Math_ceil (options_min options)) (Math_floor (options_max options))"
  shows "number_int fl options r = Some (Inr (Math_ceil (options_min options)), r)
       \<and> Math_ceil (options_min options) = Math_floor (options_max options)"
  using assms by (simp add: number_int_def Let_def js_strict_eq_def)

theorem int_equal_bounds_returns_bound_witness:
  "js_strict_eq (Math_ceil (Fin 5)) (Math_floor (Fin 5))
   \<and> number_int Fin (Some (ObjectArg (Some (Fin 5)) (Some (Fin 5)) (Some [Fin 5])))
         \<lparr>stream = (\<lambda>n. Fin 0), consulted = 0\<rparr>
       = Some (Inr (Fin 5), \<lparr>stream = (\<lambda>n. Fin 0), consulted = 0\<rparr>)
   \<and> number_int Fin (Some (ObjectArg (Some (Fin 5)) (Some (Fin 6)) (Some [Fin 5, Fin 6])))
         \<lparr>stream = (\<lambda>n. Fin 0), consulted = 0\<rparr>
       = Some (Inl MoreValuesInExcludeList, \<lparr>stream = (\<lambda>n. Fin 0), consulted = 0\<rparr>)"
proof -
  have h: "js_strict_eq
      (Math_ceil (options_min (Some (ObjectArg (Some (Fin 5)) (Some (Fin 5)) (Some [Fin 5])))))
      (Math_floor (options_max (Some (ObjectArg (Some (Fin 5)) (Some (Fin 5)) (Some [Fin 5])))))"
    by (simp add: options_min_def options_max_def normalize_options_def js_strict_eq_def)
  have other: "number_int Fin (Some (ObjectArg (Some (Fin 5)) (Some (Fin 6)) (Some [Fin 5, Fin 6])))
         \<lparr>stream = (\<lambda>n. Fin 0), consulted = 0\<rparr>
       = Some (Inl MoreValuesInExcludeList, \<lparr>stream = (\<lambda>n. Fin 0), consulted = 0\<rparr>)"
    by (simp add: number_int_def Let_def options_min_def options_max_def options_exclude_def
        normalize_options_def js_strict_eq_def js_ge_def js_sub_def)
  show ?thesis
    using other
      int_equal_bounds_returns_bound [OF h, of Fin "\<lparr>stream = (\<lambda>n. Fin 0), consulted = 0\<rparr>"]
    by (simp add: options_min_def options_max_def normalize_options_def js_strict_eq_def)
qed

section \<open>Properties of the generator\<close>

lemma fromEntries_fold:
  "foldl (\<lambda>obj (k, v). obj(k \<mapsto> v)) m es = m ++ map_of (rev es)"
  by (induction es arbitrary: m) (auto simp: map_add_upd_left)

lemma fromEntries_map_of: "Object_fromEntries es = map_of (rev es)"
  by (simp add: Object_fromEntries_def fromEntries_fold)

lemma map_of_rev_last:
  "map_of (rev (map (\<lambda>p. (k p, v p)) ps)) t =
     (case filter (\<lambda>p. k p = t) ps of [] \<Rightarrow> None | q # qs \<Rightarrow> Some (v (last (q # qs))))"
proof (induction ps rule: rev_induct)
  case Nil
  then show ?case by simp
next
  case (snoc x xs)
  then show ?case by (auto split: list.splits)
qed

lemma filter_distinct_key:
  "distinct (map k ps) \<Longrightarrow> p \<in> set ps \<Longrightarrow> filter (\<lambda>q. k q = k p) ps = [p]"
proof (induction ps)
  case Nil
  then show ?case by simp
next
  case (Cons a ps)
  then show ?case by (auto simp: filter_empty_conv image_iff)
qed

lemma mset_insert_by: "mset (insert_by c x ys) = add_mset x (mset ys)"
  by (induction ys) auto

lemma set_insert_by: "set (insert_by c x ys) = insert x (set ys)"
  by (induction ys) auto

lemma mset_array_sort: "mset (array_sort c xs) = mset xs"
  unfolding array_sort_def by (induction xs) (auto simp: mset_insert_by)

lemma sorted_insert_by:
  assumes tr: "\<And>a b d. c a b \<le> 0 \<Longrightarrow> c b d \<le> 0 \<Longrightarrow> c a d \<le> 0"
      and tot: "\<And>a b. c a b \<le> 0 \<or> c b a \<le> 0"
  shows "sorted_wrt (\<lambda>a b. c a b \<le> 0) ys \<Longrightarrow>
         sorted_wrt (\<lambda>a b. c a b \<le> 0) (insert_by c x ys)"
proof (induction ys)
  case Nil
  then show ?case by simp
next
  case (Cons y ys)
  show ?case
  proof (cases "c x y > 0")
    case True
    then have "c y x \<le> 0" using tot [of x y] by auto
    with Cons True show ?thesis by (auto simp: set_insert_by)
  next
    case False
    then have "c x y \<le> 0" by simp
    with Cons.prems tr show ?thesis by auto
  qed
qed

lemma sorted_array_sort:
  assumes tr: "\<And>a b d. c a b \<le> 0 \<Longrightarrow> c b d \<le> 0 \<Longrightarrow> c a d \<le> 0"
      and tot: "\<And>a b. c a b \<le> 0 \<or> c b a \<le> 0"
  shows "sorted_wrt (\<lambda>a b. c a b \<le> 0) (array_sort c xs)"
  unfolding array_sort_def
  by (induction xs) (simp_all add: sorted_insert_by [OF tr tot])

lemma codeUnitCompare_trans:
  "codeUnitCompare a b \<le> 0 \<Longrightarrow> codeUnitCompare b c \<le> 0 \<Longrightarrow> codeUnitCompare a c \<le> 0"
  by (auto simp: codeUnitCompare_def split: if_splits)

lemma codeUnitCompare_sign: "(codeUnitCompare a b < 0) = (0 < codeUnitCompare b a)"
  by (auto simp: codeUnitCompare_def)

text \<open>
  Claim C7.  The pages are the class pages, then the module pages sorted by title with
  the locale comparison, then the randomizer page, then the utilities page; the sorted
  part holds the module pages and no others; and the pages index is this very sequence,
  each page reduced to its title and link.  The comparison is assumed to be a consistent
  comparator, as the sort of an array requires: it is transitive, and negative one way
  round exactly when it is positive the other way round.
\<close>

theorem generate_page_order:
  assumes "\<forall>a b c. localeCompare a b \<le> 0 \<and> localeCompare b c \<le> 0 \<longrightarrow> localeCompare a c \<le> 0"
      and "\<forall>a b. (localeCompare a b < 0) = (0 < localeCompare b a)"
  shows "generate_pages localeCompare cs ms r u =
           cs @ array_sort (\<lambda>a b. localeCompare (page_text a) (page_text b)) ms @ [r, u]
       \<and> mset (array_sort (\<lambda>a b. localeCompare (page_text a) (page_text b)) ms) = mset ms
       \<and> sorted_wrt (\<lambda>a b. localeCompare (page_text a) (page_text b) \<le> 0)
            (array_sort (\<lambda>a b. localeCompare (page_text a) (page_text b)) ms)
       \<and> apiPagesIndex (generate localeCompare cs ms r u) =
            map (\<lambda>p. (page_text p, page_link p)) (generate_pages localeCompare cs ms r u)"
proof -
  let ?c = "\<lambda>a b. localeCompare (page_text a) (page_text b)"
  have tr: "\<And>a b d. ?c a b \<le> 0 \<Longrightarrow> ?c b d \<le> 0 \<Longrightarrow> ?c a d \<le> 0"
    using assms(1) by blast
  have tot: "?c a b \<le> 0 \<or> ?c b a \<le> 0" for a b
  proof (cases "?c a b \<le> 0")
    case True
    then show ?thesis by simp
  next
    case False
    then have "0 < ?c a b" by simp
    then have "?c b a < 0" using assms(2) by simp
    then show ?thesis by simp
  qed
  have "sorted_wrt (\<lambda>a b. ?c a b \<le> 0) (array_sort ?c ms)"
    by (rule sorted_array_sort [of ?c, OF tr tot])
  then show ?thesis
    by (simp add: generate_pages_def generate_def Let_def mset_array_sort)
qed

theorem generate_page_order_witness:
  "map page_text
     (generate_pages codeUnitCompare
        [\<lparr>page_text = ''Faker'', page_link = ''/api/faker.html'', page_diff = (1::nat), page_content = ()\<rparr>]
        [\<lparr>page_text = ''String'', page_link = ''/api/string.html'', page_diff = 2, page_content = ()\<rparr>,
         \<lparr>page_text = ''Number'', page_link = ''/api/number.html'', page_diff = 3, page_content = ()\<rparr>,
         \<lparr>page_text = ''Date'', page_link = ''/api/date.html'', page_diff = 4, page_content = ()\<rparr>]
        \<lparr>page_text = ''Randomizer'', page_link = ''/api/randomizer.html'', page_diff = 5, page_content = ()\<rparr>
        \<lparr>page_text = ''Utilities'', page_link = ''/api/utils.html'', page_diff = 6, page_content = ()\<rparr>)
   = [''Faker'', ''Date'', ''Number'', ''String'', ''Randomizer'', ''Utilities'']"
proof -
  have tr: "\<forall>a b c. codeUnitCompare a b \<le> 0 \<and> codeUnitCompare b c \<le> 0 \<longrightarrow> codeUnitCompare a c \<le> 0"
    using codeUnitCompare_trans by blast
  have tot: "\<forall>a b. (codeUnitCompare a b < 0) = (0 < codeUnitCompare b a)"
    using codeUnitCompare_sign by blast
  have "generate_pages codeUnitCompare
        [\<lparr>page_text = ''Faker'', page_link = ''/api/faker.html'', page_diff = (1::nat), page_content = ()\<rparr>]
        [\<lparr>page_text = ''String'', page_link = ''/api/string.html'', page_diff = 2, page_content = ()\<rparr>,
         \<lparr>page_text = ''Number'', page_link = ''/api/number.html'', page_diff = 3, page_content = ()\<rparr>,
         \<lparr>page_text = ''Date'', page_link = ''/api/date.html'', page_diff = 4, page_content = ()\<rparr>]
        \<lparr>page_text = ''Randomizer'', page_link = ''/api/randomizer.html'', page_diff = 5, page_content = ()\<rparr>
        \<lparr>page_text = ''Utilities'', page_link = ''/api/utils.html'', page_diff = 6, page_content = ()\<rparr>
     = [\<lparr>page_text = ''Faker'', page_link = ''/api/faker.html'', page_diff = (1::nat), page_content = ()\<rparr>]
       @ array_sort (\<lambda>a b. codeUnitCompare (page_text a) (page_text b))
        [\<lparr>page_text = ''String'', page_link = ''/api/string.html'', page_diff = 2, page_content = ()\<rparr>,
         \<lparr>page_text = ''Number'', page_link = ''/api/number.html'', page_diff = 3, page_content = ()\<rparr>,
         \<lparr>page_text = ''Date'', page_link = ''/api/date.html'', page_diff = 4, page_content = ()\<rparr>]
       @ [\<lparr>page_text = ''Randomizer'', page_link = ''/api/randomizer.html'', page_diff = 5, page_content = ()\<rparr>,
          \<lparr>page_text = ''Utilities'', page_link = ''/api/utils.html'', page_diff = 6, page_content = ()\<rparr>]"
    using generate_page_order [OF tr tot,
      of "[\<lparr>page_text = ''Faker'', page_link = ''/api/faker.html'', page_diff = (1::nat), page_content = ()\<rparr>]"
         "[\<lparr>page_text = ''String'', page_link = ''/api/string.html'', page_diff = 2, page_content = ()\<rparr>,
           \<lparr>page_text = ''Number'', page_link = ''/api/number.html'', page_diff = 3, page_content = ()\<rparr>,
           \<lparr>page_text = ''Date'', page_link = ''/api/date.html'', page_diff = 4, page_content = ()\<rparr>]"
         "\<lparr>page_text = ''Randomizer'', page_link = ''/api/randomizer.html'', page_diff = 5, page_content = ()\<rparr>"
         "\<lparr>page_text = ''Utilities'', page_link = ''/api/utils.html'', page_diff = 6, page_content = ()\<rparr>"]
    by blast
  then show ?thesis
    by (simp add: array_sort_def codeUnitCompare_def)
qed

text \<open>
  Claim C1, as the code has it.  The diff index maps a title to the diff of the last page
  that carries the title, and to nothing when no page does; so when the titles of the
  pages are pairwise distinct, it maps the title of every page to the diff of that page.
\<close>

theorem generate_diff_index_last_wins:
  "apiDiffIndex (generate lc cs ms r u) t =
     (case filter (\<lambda>p. page_text p = t) (generate_pages lc cs ms r u) of
        [] \<Rightarrow> None
      | q # qs \<Rightarrow> Some (page_diff (last (q # qs))))
   \<and> (distinct (map page_text (generate_pages lc cs ms r u)) \<longrightarrow>
        (\<forall>p \<in> set (generate_pages lc cs ms r u).
            apiDiffIndex (generate lc cs ms r u) (page_text p) = Some (page_diff p)))"
proof -
  let ?ps = "generate_pages lc cs ms r u"
  have idx: "apiDiffIndex (generate lc cs ms r u) =
      map_of (rev (map (\<lambda>p. (page_text p, page_diff p)) ?ps))"
    by (simp add: generate_def Let_def fromEntries_map_of)
  have a: "apiDiffIndex (generate lc cs ms r u) t =
     (case filter (\<lambda>p. page_text p = t) ?ps of
        [] \<Rightarrow> None
      | q # qs \<Rightarrow> Some (page_diff (last (q # qs))))" for t
    unfolding idx by (rule map_of_rev_last)
  have b: "apiDiffIndex (generate lc cs ms r u) (page_text p) = Some (page_diff p)"
    if "distinct (map page_text ?ps)" "p \<in> set ?ps" for p
    unfolding a using filter_distinct_key [OF that] by simp
  from a b show ?thesis by blast
qed

theorem generate_diff_index_last_wins_witness:
  "distinct (map page_text
     (generate_pages codeUnitCompare
        [\<lparr>page_text = ''Faker'', page_link = ''/api/faker.html'', page_diff = (1::nat), page_content = ()\<rparr>]
        [\<lparr>page_text = ''Number'', page_link = ''/api/number.html'', page_diff = 3, page_content = ()\<rparr>]
        \<lparr>page_text = ''Randomizer'', page_link = ''/api/randomizer.html'', page_diff = 5, page_content = ()\<rparr>
        \<lparr>page_text = ''Utilities'', page_link = ''/api/utils.html'', page_diff = 6, page_content = ()\<rparr>))
   \<and> apiDiffIndex
       (generate codeUnitCompare
        [\<lparr>page_text = ''Faker'', page_link = ''/api/faker.html'', page_diff = (1::nat), page_content = ()\<rparr>]
        [\<lparr>page_text = ''Number'', page_link = ''/api/number.html'', page_diff = 3, page_content = ()\<rparr>]
        \<lparr>page_text = ''Randomizer'', page_link = ''/api/randomizer.html'', page_diff = 5, page_content = ()\<rparr>
        \<lparr>page_text = ''Utilities'', page_link = ''/api/utils.html'', page_diff = 6, page_content = ()\<rparr>)
       ''Number'' = Some 3"
  using generate_diff_index_last_wins [of codeUnitCompare
        "[\<lparr>page_text = ''Faker'', page_link = ''/api/faker.html'', page_diff = (1::nat), page_content = ()\<rparr>]"
        "[\<lparr>page_text = ''Number'', page_link = ''/api/number.html'', page_diff = 3, page_content = ()\<rparr>]"
        "\<lparr>page_text = ''Randomizer'', page_link = ''/api/randomizer.html'', page_diff = 5, page_content = ()\<rparr>"
        "\<lparr>page_text = ''Utilities'', page_link = ''/api/utils.html'', page_diff = 6, page_content = ()\<rparr>"
        "''Number''"]
  by (simp add: generate_pages_def array_sort_def)

text \<open>
  Claim C1, as it is stated, fails.  Two class pages with the title \<open>Faker\<close>: the run
  produces its three indices, the pages index and the search index hold both pages, and
  the diff index holds one entry for the title, the diff of the second page; the diff of
  the first page is in no index.
\<close>

theorem generate_duplicate_title_counterexample:
  "apiPagesIndex
     (generate codeUnitCompare
        [\<lparr>page_text = ''Faker'', page_link = ''/api/faker.html'', page_diff = (1::nat), page_content = ()\<rparr>,
         \<lparr>page_text = ''Faker'', page_link = ''/api/simplefaker.html'', page_diff = 2, page_content = ()\<rparr>]
        []
        \<lparr>page_text = ''Randomizer'', page_link = ''/api/randomizer.html'', page_diff = 5, page_content = ()\<rparr>
        \<lparr>page_text = ''Utilities'', page_link = ''/api/utils.html'', page_diff = 6, page_content = ()\<rparr>)
   = [(''Faker'', ''/api/faker.html''), (''Faker'', ''/api/simplefaker.html''),
      (''Randomizer'', ''/api/randomizer.html''), (''Utilities'', ''/api/utils.html'')]
   \<and> apiDiffIndex
     (generate codeUnitCompare
        [\<lparr>page_text = ''Faker'', page_link = ''/api/faker.html'', page_diff = (1::nat), page_content = ()\<rparr>,
         \<lparr>page_text = ''Faker'', page_link = ''/api/simplefaker.html'', page_diff = 2, page_content = ()\<rparr>]
        []
        \<lparr>page_text = ''Randomizer'', page_link = ''/api/randomizer.html'', page_diff = 5, page_content = ()\<rparr>
        \<lparr>page_text = ''Utilities'', page_link = ''/api/utils.html'', page_diff = 6, page_content = ()\<rparr>)
     ''Faker'' = Some 2"
  by (simp add: generate_def generate_pages_def array_sort_def Object_fromEntries_def Let_def)

section \<open>Properties of the materializer\<close>

lemma set_uniq: "set (uniq xs) = set xs"
  by (induction xs) auto

lemma distinct_uniq: "distinct (uniq xs)"
  by (induction xs) (auto simp: set_uniq)

lemma uniq_snoc: "uniq (xs @ [x]) = (if x \<in> set xs then uniq xs else uniq xs @ [x])"
proof (induction xs)
  case Nil
  then show ?case by simp
next
  case (Cons a xs)
  then show ?case by (auto simp: filter_id_conv set_uniq)
qed

lemma takeWhile_until: "x \<notin> set xs \<Longrightarrow> takeWhile (\<lambda>d. d \<noteq> x) (xs @ x # ys) = xs"
  by (induction xs) auto

lemma dropWhile_until: "x \<notin> set xs \<Longrightarrow> dropWhile (\<lambda>d. d \<noteq> x) (xs @ x # ys) = x # ys"
  by (induction xs) auto

lemma dropWhile_all: "\<forall>x \<in> set xs. P x \<Longrightarrow> \<not> P y \<Longrightarrow> dropWhile P (xs @ y # ys) = y # ys"
  by (induction xs) auto

lemma dot_not_identifier: "\<not> isIdentifierPart CHR ''.''"
  by (simp add: isIdentifierPart_def isIdentifierStart_def)

lemma prefix_faker_takeWhile:
  "prefix ''faker'' s \<Longrightarrow> prefix ''faker'' (takeWhile isIdentifierPart s)"
  by (auto simp: prefix_def isIdentifierPart_def isIdentifierStart_def)

lemma fakerNamesIdentifier_append:
  "fakerNamesIdentifier p (xs @ ys) \<Longrightarrow>
     fakerNamesIdentifier (if xs = [] then p else Some (last xs)) ys"
proof (induction xs arbitrary: p)
  case Nil
  then show ?case by simp
next
  case (Cons x xs)
  from Cons.prems have "fakerNamesIdentifier (Some x) (xs @ ys)" by simp
  from Cons.IH [OF this] show ?case by (cases xs) simp_all
qed

lemma spec_identifierAt_Some:
  assumes "spec_identifierAt previous s = Some (name, rest)"
  shows "s = name @ rest" and "prefix ''.'' rest" and "\<forall>d \<in> set name. isIdentifierPart d"
    and "name \<noteq> []" and "previous \<noteq> Some CHR ''.''"
    and "name = takeWhile isIdentifierPart s"
proof -
  from assms obtain c cs where s: "s = c # cs" by (cases s) (auto simp: spec_identifierAt_def)
  from assms s have st: "isIdentifierStart c"
    and pv: "case previous of None \<Rightarrow> True | Some p \<Rightarrow> p \<noteq> CHR ''.'' \<and> \<not> isIdentifierPart p"
    and n: "name = c # takeWhile isIdentifierPart cs"
    and r: "rest = dropWhile isIdentifierPart cs" and d: "prefix ''.'' rest"
    by (auto simp: spec_identifierAt_def Let_def split: if_splits)
  show "s = name @ rest" using s n r by simp
  show "prefix ''.'' rest" by (rule d)
  have "isIdentifierPart c" using st by (simp add: isIdentifierPart_def)
  then show "\<forall>d \<in> set name. isIdentifierPart d" using n by (auto dest: set_takeWhileD)
  show "name \<noteq> []" using n by simp
  show "previous \<noteq> Some CHR ''.''" using pv by (auto split: option.splits)
  show "name = takeWhile isIdentifierPart s" using s n \<open>isIdentifierPart c\<close> by simp
qed

text \<open>Inside an identifier the scan of the code finds nothing.\<close>

lemma fakerImports_skip_identifier:
  assumes "isIdentifierPart p" and "\<forall>d \<in> set xs. isIdentifierPart d" and "prefix ''.'' ys"
    and "fakerNamesIdentifier (Some p) (xs @ ys)"
  shows "fakerImports (Some p) (xs @ ys) = fakerImports (Some (last (p # xs))) ys"
  using assms
proof (induction xs arbitrary: p)
  case Nil
  then show ?case by simp
next
  case (Cons x xs)
  from Cons.prems(3) have dot: "CHR ''.'' \<in> set (xs @ ys)" by (auto simp: prefix_def)
  have none: "fakerImportAt (Some p) (x # xs @ ys) = None"
  proof (cases "prefix ''faker'' (x # xs @ ys) \<and> Some p \<noteq> Some CHR ''.''")
    case True
    with Cons.prems(4) dot have "\<not> isIdentifierPart p" by simp
    with Cons.prems(1) show ?thesis by simp
  next
    case False
    then show ?thesis by (auto simp: fakerImportAt_def)
  qed
  from Cons.prems have "isIdentifierPart x" "\<forall>d \<in> set xs. isIdentifierPart d"
    "fakerNamesIdentifier (Some x) (xs @ ys)" by simp_all
  from Cons.IH [OF this(1,2) Cons.prems(3) this(3)] none show ?case by simp
qed

lemma fakerImportAt_hit:
  assumes "CHR ''.'' \<notin> set body" "previous \<noteq> Some CHR ''.''"
  shows "fakerImportAt previous (''faker'' @ body @ ''.'' @ after) =
           Some (''faker'' @ body, ''.'' @ after)"
proof -
  have t: "takeWhile (\<lambda>d. d \<noteq> CHR ''.'') (body @ CHR ''.'' # after) = body"
    using assms(1) by (rule takeWhile_until)
  have d: "dropWhile (\<lambda>d. d \<noteq> CHR ''.'') (body @ CHR ''.'' # after) = CHR ''.'' # after"
    using assms(1) by (rule dropWhile_until)
  show ?thesis using assms(2) by (simp add: fakerImportAt_def t d)
qed

text \<open>Where the specification finds an identifier that starts with \<open>faker\<close>, so does the code.\<close>

lemma fakerImportAt_of_identifier:
  assumes "spec_identifierAt previous s = Some (name, rest)" and "prefix ''faker'' name"
  shows "fakerImportAt previous s = Some (name, rest)"
proof -
  note at = spec_identifierAt_Some [OF assms(1)]
  from assms(2) obtain body where name: "name = ''faker'' @ body" by (auto simp: prefix_def)
  from at(2) obtain after where rest: "rest = ''.'' @ after" by (auto simp: prefix_def)
  have "CHR ''.'' \<notin> set body" using at(3) name dot_not_identifier by auto
  from fakerImportAt_hit [OF this at(5), of after] show ?thesis
    unfolding at(1) name rest by simp
qed

text \<open>Where the code finds a match, the specification finds an identifier.\<close>

lemma spec_identifierAt_of_faker:
  assumes "fakerImportAt previous (c # cs) = Some (name, rest)"
    and "fakerNamesIdentifier previous (c # cs)"
  shows "spec_identifierAt previous (c # cs) \<noteq> None"
proof -
  from assms(1) have p: "prefix ''faker'' (c # cs)" and pv: "previous \<noteq> Some CHR ''.''"
    and ne: "dropWhile (\<lambda>d. d \<noteq> CHR ''.'') (drop 5 (c # cs)) \<noteq> []"
    by (auto simp: fakerImportAt_def Let_def split: if_splits)
  from p have c: "c = CHR ''f''" by (auto simp: prefix_def)
  from ne have "\<exists>d \<in> set (drop 5 (c # cs)). \<not> d \<noteq> CHR ''.''"
    by simp
  then have "CHR ''.'' \<in> set (drop 5 (c # cs))" by auto
  then have "CHR ''.'' \<in> set (c # cs)" by (rule in_set_dropD)
  with c have dot: "CHR ''.'' \<in> set cs" by simp
  from assms(2) p pv dot have
    start: "case previous of None \<Rightarrow> True | Some q \<Rightarrow> \<not> isIdentifierPart q" and
    run: "\<forall>d \<in> set (takeWhile (\<lambda>d. d \<noteq> CHR ''.'') cs). isIdentifierPart d"
    by simp_all
  let ?t = "takeWhile (\<lambda>d. d \<noteq> CHR ''.'') cs"
  let ?r = "dropWhile (\<lambda>d. d \<noteq> CHR ''.'') cs"
  from dot have "?r \<noteq> []" by simp
  moreover then have "hd ?r = CHR ''.''"
    using hd_dropWhile [of "\<lambda>d. d \<noteq> CHR ''.''" cs] by simp
  ultimately obtain after where r: "?r = CHR ''.'' # after" by (cases ?r) auto
  have cs: "cs = ?t @ CHR ''.'' # after"
    using takeWhile_dropWhile_id [of "\<lambda>d. d \<noteq> CHR ''.''" cs] r by simp
  have d: "dropWhile isIdentifierPart cs = CHR ''.'' # after"
    by (subst cs) (rule dropWhile_all [OF run dot_not_identifier])
  have st: "isIdentifierStart c" using c by (simp add: isIdentifierStart_def)
  have "case previous of None \<Rightarrow> True | Some q \<Rightarrow> q \<noteq> CHR ''.'' \<and> \<not> isIdentifierPart q"
    using start pv by (auto split: option.splits)
  with st d show ?thesis by (simp add: spec_identifierAt_def Let_def)
qed

text \<open>
  On such a text the matches of the code are, one for one and in the same order, the
  identifiers of the specification that start with \<open>faker\<close>.
\<close>

lemma fakerImports_eq_identifiers:
  "fakerNamesIdentifier previous s \<Longrightarrow>
     fakerImports previous s = filter (prefix ''faker'') (spec_identifiers previous s)"
proof (induction previous s rule: spec_identifiers.induct)
  case (1 previous)
  then show ?case by simp
next
  case (2 previous c cs)
  show ?case
  proof (cases "spec_identifierAt previous (c # cs)")
    case None
    have code: "fakerImportAt previous (c # cs) = None"
    proof (cases "fakerImportAt previous (c # cs)")
      case None
      then show ?thesis .
    next
      case (Some m)
      obtain name rest where "m = (name, rest)" by (cases m)
      with Some spec_identifierAt_of_faker [OF _ "2.prems"] None show ?thesis by auto
    qed
    from "2.prems" have "fakerNamesIdentifier (Some c) cs" by simp
    from "2.IH"(1) [OF None this] code None show ?thesis by simp
  next
    case (Some m)
    obtain name rest where m: "m = (name, rest)" by (cases m)
    note at = spec_identifierAt_Some [OF Some [unfolded m]]
    have "fakerNamesIdentifier (if name = [] then previous else Some (last name)) rest"
      using fakerNamesIdentifier_append [of previous name rest] "2.prems" at(1) by simp
    with at(4) have h: "fakerNamesIdentifier (Some (last name)) rest" by simp
    note ih = "2.IH"(2) [OF Some [unfolded m] refl h]
    show ?thesis
    proof (cases "prefix ''faker'' name")
      case True
      from fakerImportAt_of_identifier [OF Some [unfolded m] True] ih Some m True
      show ?thesis by simp
    next
      case False
      from at(4) obtain x xs where name: "name = x # xs" by (cases name) auto
      with at(1) have x: "x = c" and cs: "cs = xs @ rest" by simp_all
      have np: "\<not> prefix ''faker'' (c # cs)"
        using False prefix_faker_takeWhile [of "c # cs"] at(6) by auto
      then have none: "fakerImportAt previous (c # cs) = None"
        by (simp add: fakerImportAt_def)
      from at(3) name x have ic: "isIdentifierPart c" and ixs: "\<forall>d \<in> set xs. isIdentifierPart d"
        by simp_all
      from "2.prems" cs have "fakerNamesIdentifier (Some c) (xs @ rest)" by simp
      from fakerImports_skip_identifier [OF ic ixs at(2) this]
      have "fakerImports (Some c) cs = fakerImports (Some (last name)) rest"
        using cs name x by simp
      with none ih Some m False show ?thesis by simp
    qed
  qed
qed

text \<open>
  Claim C4, as the code has it.  The file is one import statement, a blank line and the
  examples as they are, and no name is imported twice.  On a text in which \<open>faker\<close> only
  names identifiers, the imported names are the bare identifiers that start with
  \<open>faker\<close>, are immediately followed by a dot and are not preceded by a dot: all of
  them, each once, in the order in which they first occur (a name is added at the end
  unless it is there already).
\<close>

theorem materialize_imports_faker_identifiers:
  "materialize examples =
     ''import { '' @ join (materializedImports examples) '', ''
       @ '' } from '../../../../../src';'' @ [CHR 0x0A, CHR 0x0A] @ examples
   \<and> distinct (materializedImports examples)
   \<and> (fakerNamesIdentifier None examples \<longrightarrow>
         materializedImports examples =
           uniq (filter (prefix ''faker'') (spec_identifiers None examples)))
   \<and> (\<forall>names name. uniq (names @ [name]) =
         (if name \<in> set names then uniq names else uniq names @ [name :: string]))"
proof -
  have a: "materialize examples =
     ''import { '' @ join (materializedImports examples) '', ''
       @ '' } from '../../../../../src';'' @ [CHR 0x0A, CHR 0x0A] @ examples"
    by (simp add: materialize_def)
  have b: "distinct (materializedImports examples)"
    by (simp add: materializedImports_def distinct_uniq)
  have c: "materializedImports examples =
      uniq (filter (prefix ''faker'') (spec_identifiers None examples))"
    if "fakerNamesIdentifier None examples"
    using fakerImports_eq_identifiers [OF that] by (simp add: materializedImports_def)
  from a b c uniq_snoc show ?thesis by blast
qed

theorem materialize_imports_faker_identifiers_witness:
  "fakerNamesIdentifier None
     ''faker.number.int(); fakerDE.person.firstName(); faker.string.uuid()''
   \<and> materializedImports
       ''faker.number.int(); fakerDE.person.firstName(); faker.string.uuid()''
     = [''faker'', ''fakerDE'']
   \<and> materialize ''faker.number.int(); fakerDE.person.firstName(); faker.string.uuid()'' =
       ''import { faker, fakerDE } from '../../../../../src';'' @ [CHR 0x0A, CHR 0x0A]
         @ ''faker.number.int(); fakerDE.person.firstName(); faker.string.uuid()''"
proof -
  have h: "fakerNamesIdentifier None
     ''faker.number.int(); fakerDE.person.firstName(); faker.string.uuid()''"
    by (simp add: isIdentifierPart_def isIdentifierStart_def)
  have s: "uniq (filter (prefix ''faker'') (spec_identifiers None
       ''faker.number.int(); fakerDE.person.firstName(); faker.string.uuid()''))
     = [''faker'', ''fakerDE'']"
    by (simp add: spec_identifierAt_def isIdentifierPart_def isIdentifierStart_def)
  note t = materialize_imports_faker_identifiers
    [of "''faker.number.int(); fakerDE.person.firstName(); faker.string.uuid()''"]
  have i: "materializedImports
       ''faker.number.int(); fakerDE.person.firstName(); faker.string.uuid()''
     = [''faker'', ''fakerDE'']"
    using t [THEN conjunct2, THEN conjunct2, THEN conjunct1] h s by simp
  have m: "materialize ''faker.number.int(); fakerDE.person.firstName(); faker.string.uuid()'' =
       ''import { faker, fakerDE } from '../../../../../src';'' @ [CHR 0x0A, CHR 0x0A]
         @ ''faker.number.int(); fakerDE.person.firstName(); faker.string.uuid()''"
    unfolding t [THEN conjunct1] i by simp
  from h i m show ?thesis by blast
qed

text \<open>
  Claim C4, as it is stated, fails.  In \<open>foo.bar()\<close> the identifier \<open>foo\<close> is followed
  by a dot and not preceded by one, and the import statement names nothing.  In
  \<open>fakerX = 1; a.b\<close> the name imported is no identifier.
\<close>

theorem materialize_identifier_scan_counterexample:
  "spec_materializedImports ''foo.bar()'' = [''foo'']
   \<and> materializedImports ''foo.bar()'' = []
   \<and> materialize ''foo.bar()'' =
       ''import {  } from '../../../../../src';'' @ [CHR 0x0A, CHR 0x0A] @ ''foo.bar()''
   \<and> spec_materializedImports ''fakerX = 1; a.b'' = [''a'']
   \<and> materializedImports ''fakerX = 1; a.b'' = [''fakerX = 1; a'']"
  by (simp add: materialize_def materializedImports_def fakerImportAt_def
      spec_materializedImports_def spec_identifierAt_def isIdentifierStart_def
      isIdentifierPart_def)

text \<open>
  Claim C9.  Running the hook of a method a second time leaves the file system as the
  first run left it, and the content of the file is the materialized text of the
  examples, whatever was there before.
\<close>

theorem beforeAllMethod_idempotent:
  "beforeAllMethod resolve tempDir moduleName methodName examples
     (beforeAllMethod resolve tempDir moduleName methodName examples fs)
   = beforeAllMethod resolve tempDir moduleName methodName examples fs
   \<and> fileContent (beforeAllMethod resolve tempDir moduleName methodName examples fs)
       (resolvePathToMethodFile resolve tempDir moduleName methodName)
     = Some (materialize examples)"
  by (simp add: beforeAllMethod_def Let_def mkdirSync_def writeFileSync_def)

theorem beforeAllMethod_idempotent_witness:
  "fileContent
     (beforeAllMethod (\<lambda>a b. a @ ''/'' @ b) ''temp'' ''number'' ''int'' ''faker.number.int()''
        (beforeAllMethod (\<lambda>a b. a @ ''/'' @ b) ''temp'' ''number'' ''int'' ''faker.number.int()''
           \<lparr>directories = {}, fileContent = Map.empty\<rparr>))
     ''temp/number/int.ts''
   = Some (''import { faker } from '../../../../../src';'' @ [CHR 0x0A, CHR 0x0A]
             @ ''faker.number.int()'')"
proof -
  have m: "materialize ''faker.number.int()'' =
      ''import { faker } from '../../../../../src';'' @ [CHR 0x0A, CHR 0x0A]
        @ ''faker.number.int()''"
    by (simp add: materialize_def materializedImports_def fakerImportAt_def)
  have p: "resolvePathToMethodFile (\<lambda>a b. a @ ''/'' @ b) ''temp'' ''number'' ''int''
      = ''temp/number/int.ts''"
    by (simp add: resolvePathToMethodFile_def resolveDirToModule_def)
  show ?thesis
    using beforeAllMethod_idempotent [of "\<lambda>a b. a @ ''/'' @ b" "''temp''" "''number''"
        "''int''" "''faker.number.int()''" "\<lparr>directories = {}, fileContent = Map.empty\<rparr>"]
    unfolding m p by simp
qed

section \<open>Properties of the tests of a method\<close>

lemma join_empty_separator: "join xs [] = concat xs"
  by (induction xs "[] :: string" rule: join.induct) simp_all

text \<open>
  Claim C3.  The test of the examples passes exactly when the joined examples are not
  the empty string and the import, with the scope \<open>example\<close>, of the file of the method
  is fulfilled; it fails on the examples first.  That file is the one the hook of the
  method has written, and it holds the materialized examples.
\<close>

theorem verify_example_tag_passes_iff:
  "(verify_example_tag resolve tempDir dynamicImport moduleName methodName examples = Inr ()
      \<longleftrightarrow> examples \<noteq> ''''
          \<and> promise (dynamicImport
                (resolvePathToMethodFile resolve tempDir moduleName methodName
                   @ ''?scope=example'')) = Fulfilled)
   \<and> (examples = '''' \<longrightarrow>
        verify_example_tag resolve tempDir dynamicImport moduleName methodName examples
          = Inl (AssertionError (moduleName @ ''.'' @ methodName @ '' to have examples'')))
   \<and> (examples \<noteq> ''''
        \<and> promise (dynamicImport
                (resolvePathToMethodFile resolve tempDir moduleName methodName
                   @ ''?scope=example'')) = Rejected \<longrightarrow>
        verify_example_tag resolve tempDir dynamicImport moduleName methodName examples
          = Inl ImportRejected)
   \<and> fileContent (beforeAllMethod resolve tempDir moduleName methodName examples fs)
        (resolvePathToMethodFile resolve tempDir moduleName methodName)
       = Some (materialize examples)"
  by (auto simp: verify_example_tag_def andThen_def expect_def Let_def beforeAllMethod_def
      mkdirSync_def writeFileSync_def split: settled.splits)

theorem verify_example_tag_passes_iff_witness:
  "verify_example_tag (\<lambda>a b. a @ ''/'' @ b) ''temp''
     (\<lambda>file. \<lparr>promise = Fulfilled, warnCalls = 0\<rparr>) ''number'' ''int'' ''faker.number.int()''
     = Inr ()
   \<and> verify_example_tag (\<lambda>a b. a @ ''/'' @ b) ''temp''
     (\<lambda>file. \<lparr>promise = Fulfilled, warnCalls = 0\<rparr>) ''number'' ''int'' ''''
     = Inl (AssertionError ''number.int to have examples'')"
proof -
  note a = verify_example_tag_passes_iff [of "\<lambda>a b. a @ ''/'' @ b" "''temp''"
      "\<lambda>file. \<lparr>promise = Fulfilled, warnCalls = 0\<rparr>" "''number''" "''int''"
      "''faker.number.int()''" "\<lparr>directories = {}, fileContent = Map.empty\<rparr>"]
  note b = verify_example_tag_passes_iff [of "\<lambda>a b. a @ ''/'' @ b" "''temp''"
      "\<lambda>file. \<lparr>promise = Fulfilled, warnCalls = 0\<rparr>" "''number''" "''int''"
      "''''" "\<lparr>directories = {}, fileContent = Map.empty\<rparr>"]
  have p1: "verify_example_tag (\<lambda>a b. a @ ''/'' @ b) ''temp''
     (\<lambda>file. \<lparr>promise = Fulfilled, warnCalls = 0\<rparr>) ''number'' ''int'' ''faker.number.int()''
     = Inr ()"
    using a [THEN conjunct1] by simp
  have p2: "verify_example_tag (\<lambda>a b. a @ ''/'' @ b) ''temp''
     (\<lambda>file. \<lparr>promise = Fulfilled, warnCalls = 0\<rparr>) ''number'' ''int'' ''''
     = Inl (AssertionError ''number.int to have examples'')"
    using b [THEN conjunct2, THEN conjunct1] by simp
  from p1 p2 show ?thesis by blast
qed

text \<open>
  Claim C2, as the code has it.  The test of the deprecation passes exactly when the
  import, with the scope \<open>deprecated\<close>, of the file of the method is fulfilled and, for a
  method with a \<^verbatim>\<open>@deprecated\<close> tag, the spy holds at least one call of
  \<^verbatim>\<open>console.warn\<close> and the content of the tag, joined as \<^verbatim>\<open>extractTagContent\<close>
  returns it, is not the empty string; for a method without the tag, the spy holds no
  call.
\<close>

theorem verify_deprecated_tag_passes_iff:
  "verify_deprecated_tag resolve tempDir dynamicImport moduleName methodName deprecated
      deprecatedContent = Inr ()
     \<longleftrightarrow> promise (dynamicImport
              (resolvePathToMethodFile resolve tempDir moduleName methodName
                 @ ''?scope=deprecated'')) = Fulfilled
         \<and> (deprecated \<noteq> None \<longrightarrow>
               0 < warnCalls (dynamicImport
                     (resolvePathToMethodFile resolve tempDir moduleName methodName
                        @ ''?scope=deprecated''))
               \<and> concat deprecatedContent \<noteq> '''')
         \<and> (deprecated = None \<longrightarrow>
               warnCalls (dynamicImport
                  (resolvePathToMethodFile resolve tempDir moduleName methodName
                     @ ''?scope=deprecated'')) = 0)"
  by (auto simp: verify_deprecated_tag_def Let_def andThen_def expect_def
      join_empty_separator split: settled.splits)

theorem verify_deprecated_tag_passes_iff_witness:
  "verify_deprecated_tag exampleResolve ''temp'' warnsOnce ''random'' ''number''
     (Some ''Use faker.number.int() instead.'') [''Use faker.number.int() instead.'']
     = Inr ()
   \<and> verify_deprecated_tag exampleResolve ''temp''
     (\<lambda>file. \<lparr>promise = Fulfilled, warnCalls = 0\<rparr>) ''number'' ''int'' None [] = Inr ()
   \<and> verify_deprecated_tag exampleResolve ''temp'' warnsOnce ''number'' ''int'' None []
     \<noteq> Inr ()
   \<and> verify_deprecated_tag exampleResolve ''temp'' warnsOnce ''random'' ''number''
     (Some '''') [] \<noteq> Inr ()"
proof -
  note a = verify_deprecated_tag_passes_iff [of exampleResolve "''temp''" warnsOnce
      "''random''" "''number''" "Some ''Use faker.number.int() instead.''"
      "[''Use faker.number.int() instead.'']"]
  note b = verify_deprecated_tag_passes_iff [of exampleResolve "''temp''"
      "\<lambda>file. \<lparr>promise = Fulfilled, warnCalls = 0\<rparr>" "''number''" "''int''" None "[]"]
  note c = verify_deprecated_tag_passes_iff [of exampleResolve "''temp''" warnsOnce
      "''number''" "''int''" None "[]"]
  note d = verify_deprecated_tag_passes_iff [of exampleResolve "''temp''" warnsOnce
      "''random''" "''number''" "Some ''''" "[]"]
  have p1: "verify_deprecated_tag exampleResolve ''temp'' warnsOnce ''random'' ''number''
     (Some ''Use faker.number.int() instead.'') [''Use faker.number.int() instead.'']
     = Inr ()"
    using a by (simp add: warnsOnce_def)
  have p2: "verify_deprecated_tag exampleResolve ''temp''
     (\<lambda>file. \<lparr>promise = Fulfilled, warnCalls = 0\<rparr>) ''number'' ''int'' None [] = Inr ()"
    using b by simp
  have p3: "verify_deprecated_tag exampleResolve ''temp'' warnsOnce ''number'' ''int'' None []
     \<noteq> Inr ()"
    using c by (simp add: warnsOnce_def)
  have p4: "verify_deprecated_tag exampleResolve ''temp'' warnsOnce ''random'' ''number''
     (Some '''') [] \<noteq> Inr ()"
    using d by (simp add: warnsOnce_def)
  from p1 p2 p3 p4 show ?thesis by blast
qed

text \<open>
  Claim C2, as it is stated, fails.  The test does not trim: for a method whose
  \<^verbatim>\<open>@deprecated\<close> tag has a single space as its content, and whose example warns
  once, the test passes, and the content is empty once it is trimmed.
\<close>

theorem verify_deprecated_tag_untrimmed_counterexample:
  "verify_deprecated_tag exampleResolve ''temp'' warnsOnce ''random'' ''number''
     (Some '' '') ['' ''] = Inr ()
   \<and> trim (concat ['' '']) = ''''"
  by (simp add: verify_deprecated_tag_def Let_def andThen_def expect_def warnsOnce_def
      trim_def isTrimChar_def)

lemma forEach_Inr_iff: "forEach f xs = Inr () \<longleftrightarrow> (\<forall>x \<in> set xs. f x = Inr ())"
  by (induction xs) (auto split: sum.splits)

lemma forEach_filter:
  "(\<And>x. \<not> P x \<Longrightarrow> f x = Inr ()) \<Longrightarrow> forEach f (filter P xs) = forEach f xs"
  by (induction xs) (auto split: sum.splits)

lemma references_fold:
  "foldl (\<lambda>acc (moduleV, methods).
               let moduleFieldName = e moduleV
               in acc @ map (\<lambda>methodName. ''faker.'' @ moduleFieldName @ ''.'' @ methodName)
                          (Object_keys methods)) a xs
   = a @ concat (map (\<lambda>(moduleV, methods).
            map (\<lambda>methodName. ''faker.'' @ e moduleV @ ''.'' @ methodName) (Object_keys methods)) xs)"
  by (induction xs arbitrary: a) (auto simp: Let_def)

lemma allowedReferences_eq:
  "allowedReferences e modules =
     (\<Union>(m, methods) \<in> set (Object_values modules).
        (\<lambda>name. ''faker.'' @ e m @ ''.'' @ name) ` set (Object_keys methods))"
  unfolding allowedReferences_def references_fold by auto

lemma links_fold:
  "foldl (\<lambda>acc (moduleV, methods).
               let moduleFieldName = e moduleV
               in acc @ [''/api/'' @ moduleFieldName @ ''.html'']
                    @ map (\<lambda>methodName.
                             ''/api/'' @ moduleFieldName @ ''.html#'' @ toLowerCase methodName)
                          (Object_keys methods)) a xs
   = a @ concat (map (\<lambda>(moduleV, methods).
            (''/api/'' @ e moduleV @ ''.html'')
              # map (\<lambda>methodName. ''/api/'' @ e moduleV @ ''.html#'' @ toLowerCase methodName)
                  (Object_keys methods)) xs)"
  by (induction xs arbitrary: a) (auto simp: Let_def)

lemma allowedLinks_eq:
  "allowedLinks e modules =
     (\<Union>(m, methods) \<in> set (Object_values modules).
        insert (''/api/'' @ e m @ ''.html'')
          ((\<lambda>name. ''/api/'' @ e m @ ''.html#'' @ toLowerCase name) ` set (Object_keys methods)))"
  unfolding allowedLinks_def links_fold by auto

lemma replaceParenRest_split:
  "replaceParenRest s =
     takeWhile (\<lambda>c. c \<noteq> CHR ''('') s
       @ dropWhile (\<lambda>d. \<not> isLineTerminator d) (drop 1 (dropWhile (\<lambda>c. c \<noteq> CHR ''('') s))"
  by (induction s) auto

lemma replaceParenRest_single_line:
  assumes "\<forall>c \<in> set (replaceParenRest s). \<not> isLineTerminator c"
  shows "replaceParenRest s = takeWhile (\<lambda>c. c \<noteq> CHR ''('') s"
proof -
  let ?r = "dropWhile (\<lambda>d. \<not> isLineTerminator d) (drop 1 (dropWhile (\<lambda>c. c \<noteq> CHR ''('') s))"
  have "?r = []"
  proof (rule ccontr)
    assume ne: "?r \<noteq> []"
    then have "isLineTerminator (hd ?r)"
      using hd_dropWhile [of "\<lambda>d. \<not> isLineTerminator d"] by blast
    moreover have "hd ?r \<in> set (replaceParenRest s)"
      using ne by (subst replaceParenRest_split) simp
    ultimately show False using assms by blast
  qed
  then show ?thesis by (subst replaceParenRest_split) simp
qed

text \<open>
  Claim C5.  The test of the \<^verbatim>\<open>@see\<close> tags passes exactly when every entry that starts
  with \<open>faker.\<close> holds an opening and a closing parenthesis and is, once the text from
  the first opening parenthesis on is removed, an allowed reference; then the text before
  the first opening parenthesis is an allowed reference.  The entries that do not start
  with \<open>faker.\<close> play no part in the test.  The allowed references are the texts
  \<open>faker.<moduleFieldName>.<methodName>\<close> of the methods of the modules.  The names of
  the modules' fields and of the methods are assumed to hold no line terminator.
\<close>

theorem verify_see_tags_checks_faker_references:
  assumes "\<forall>(m, methods) \<in> set (Object_values modules).
            (\<forall>c \<in> set (e m). \<not> isLineTerminator c)
            \<and> (\<forall>name \<in> set (Object_keys methods). \<forall>c \<in> set name. \<not> isLineTerminator c)"
  shows "(verify_see_tags (allowedReferences e modules) seeAlsos = Inr () \<longleftrightarrow>
            (\<forall>link \<in> set seeAlsos. prefix ''faker.'' link \<longrightarrow>
               str_includes link ''('' \<and> str_includes link '')''
               \<and> replaceParenRest link \<in> allowedReferences e modules))
       \<and> (verify_see_tags (allowedReferences e modules) seeAlsos = Inr () \<longrightarrow>
            (\<forall>link \<in> set seeAlsos. prefix ''faker.'' link \<longrightarrow>
               str_includes link ''('' \<and> str_includes link '')''
               \<and> takeWhile (\<lambda>c. c \<noteq> CHR ''('') link \<in> allowedReferences e modules))
       \<and> verify_see_tags (allowedReferences e modules) (filter (prefix ''faker.'') seeAlsos)
            = verify_see_tags (allowedReferences e modules) seeAlsos
       \<and> allowedReferences e modules =
            (\<Union>(m, methods) \<in> set (Object_values modules).
               (\<lambda>name. ''faker.'' @ e m @ ''.'' @ name) ` set (Object_keys methods))"
proof -
  let ?A = "allowedReferences e modules"
  have iff: "verify_see_tags ?A seeAlsos = Inr () \<longleftrightarrow>
            (\<forall>link \<in> set seeAlsos. prefix ''faker.'' link \<longrightarrow>
               str_includes link ''('' \<and> str_includes link '')'' \<and> replaceParenRest link \<in> ?A)"
    unfolding verify_see_tags_def forEach_Inr_iff
    by (auto simp: andThen_def expect_def split: if_splits)
  have line: "\<forall>c \<in> set r. \<not> isLineTerminator c" if "r \<in> ?A" for r
  proof -
    from that obtain m methods name where
      in_modules: "(m, methods) \<in> set (Object_values modules)" and
      in_methods: "name \<in> set (Object_keys methods)" and
      r: "r = ''faker.'' @ e m @ ''.'' @ name"
      unfolding allowedReferences_eq by auto
    from assms in_modules in_methods
    have "\<forall>c \<in> set (e m). \<not> isLineTerminator c" "\<forall>c \<in> set name. \<not> isLineTerminator c"
      by auto
    then show ?thesis unfolding r by (auto simp: isLineTerminator_def)
  qed
  have path: "takeWhile (\<lambda>c. c \<noteq> CHR ''('') link \<in> ?A" if "replaceParenRest link \<in> ?A" for link
    using replaceParenRest_single_line [OF line [OF that]] that by simp
  have skip: "verify_see_tags ?A (filter (prefix ''faker.'') seeAlsos) = verify_see_tags ?A seeAlsos"
    unfolding verify_see_tags_def by (rule forEach_filter) simp
  from iff path skip allowedReferences_eq [of e modules] show ?thesis
    by (metis (no_types, lifting))
qed

theorem verify_see_tags_checks_faker_references_witness:
  "verify_see_tags
     (allowedReferences id [(''string'', (''string'', [(''numeric'', ()), (''binary'', ())]))])
     [''faker.string.numeric() If you would like to generate a string of digits.'',
      ''https://en.wikipedia.org/wiki/Binary_number'']
   = Inr ()
   \<and> takeWhile (\<lambda>c. c \<noteq> CHR ''('')
        ''faker.string.numeric() If you would like to generate a string of digits.''
     \<in> allowedReferences id [(''string'', (''string'', [(''numeric'', ()), (''binary'', ())]))]"
proof -
  have names: "\<forall>(m, methods) \<in> set (Object_values [(''string'', (''string'', [(''numeric'', ()), (''binary'', ())]))]).
            (\<forall>c \<in> set (id m). \<not> isLineTerminator c)
            \<and> (\<forall>name \<in> set (Object_keys methods). \<forall>c \<in> set name. \<not> isLineTerminator c)"
    by (simp add: Object_values_def Object_keys_def isLineTerminator_def)
  have pass: "verify_see_tags
     (allowedReferences id [(''string'', (''string'', [(''numeric'', ()), (''binary'', ())]))])
     [''faker.string.numeric() If you would like to generate a string of digits.'',
      ''https://en.wikipedia.org/wiki/Binary_number'']
   = Inr ()"
    by (simp add: verify_see_tags_def allowedReferences_def Object_values_def Object_keys_def
        andThen_def expect_def isLineTerminator_def)
  have "verify_see_tags
     (allowedReferences id [(''string'', (''string'', [(''numeric'', ()), (''binary'', ())]))])
     [''faker.string.numeric() If you would like to generate a string of digits.'',
      ''https://en.wikipedia.org/wiki/Binary_number'']
   = Inr () \<longrightarrow>
     (\<forall>link \<in> set [''faker.string.numeric() If you would like to generate a string of digits.'',
                       ''https://en.wikipedia.org/wiki/Binary_number''].
        prefix ''faker.'' link \<longrightarrow>
          str_includes link ''('' \<and> str_includes link '')''
          \<and> takeWhile (\<lambda>c. c \<noteq> CHR ''('') link
              \<in> allowedReferences id [(''string'', (''string'', [(''numeric'', ()), (''binary'', ())]))])"
    using verify_see_tags_checks_faker_references [OF names,
      of "[''faker.string.numeric() If you would like to generate a string of digits.'',
          ''https://en.wikipedia.org/wiki/Binary_number'']"]
    by blast
  with pass have "\<forall>link \<in> set [''faker.string.numeric() If you would like to generate a string of digits.'',
                       ''https://en.wikipedia.org/wiki/Binary_number''].
        prefix ''faker.'' link \<longrightarrow>
          str_includes link ''('' \<and> str_includes link '')''
          \<and> takeWhile (\<lambda>c. c \<noteq> CHR ''('') link
              \<in> allowedReferences id [(''string'', (''string'', [(''numeric'', ()), (''binary'', ())]))]"
    by blast
  then have "takeWhile (\<lambda>c. c \<noteq> CHR ''('')
        ''faker.string.numeric() If you would like to generate a string of digits.''
     \<in> allowedReferences id [(''string'', (''string'', [(''numeric'', ()), (''binary'', ())]))]"
    by simp
  with pass show ?thesis by blast
qed

lemma fakerjsDevAt_needs_fakerjs: "\<not> prefix ''fakerjs'' s \<Longrightarrow> fakerjsDevAt s = None"
  by (simp add: fakerjsDevAt_def)

lemma dotStarFakerjsDevAt_None:
  "\<not> str_includes s ''fakerjs'' \<Longrightarrow> dotStarFakerjsDevAt s = None"
proof (induction s)
  case Nil
  then show ?case by (simp add: fakerjsDevAt_def)
next
  case (Cons c cs)
  then have "\<not> prefix ''fakerjs'' (c # cs)" "\<not> str_includes cs ''fakerjs''" by auto
  with Cons.IH show ?case by (simp add: fakerjsDevAt_needs_fakerjs)
qed

lemma replaceFakerjsDev_https:
  assumes "\<not> str_includes path ''fakerjs''"
  shows "replaceFakerjsDev (''https://fakerjs.dev/'' @ path) = ''/'' @ path"
  using dotStarFakerjsDevAt_None [OF assms]
  by (simp add: fakerjsDevAt_def isLineTerminator_def)

text \<open>
  Claim C6, as the code has it.  The check of a plain-text description passes exactly
  when every URL of a markdown link starts with \<open>http://\<close> or \<open>https://\<close>, satisfies
  \<^verbatim>\<open>validator.isURL\<close> and, if it holds the text \<open>fakerjs.dev/api/\<close>, is an allowed link
  once its start up to \<open>fakerjs.dev/\<close> is replaced by a slash; for the URL
  \<open>https://fakerjs.dev/\<close> followed by a path, that is the slash followed by the path.
  The allowed links are \<open>/api/<moduleFieldName>.html\<close> for every module and
  \<open>/api/<moduleFieldName>.html#<methodName in lower case>\<close> for every method of it.
\<close>

theorem assertDescription_checks_markdown_links:
  "(assertDescription isURL (allowedLinks e modules) description False = Inr () \<longleftrightarrow>
      (\<forall>url \<in> set (markdownLinks description).
         (prefix ''http://'' url \<or> prefix ''https://'' url) \<and> isURL url
         \<and> (str_includes url ''fakerjs.dev/api/'' \<longrightarrow>
               replaceFakerjsDev url \<in> allowedLinks e modules)))
   \<and> (\<forall>path. \<not> str_includes path ''fakerjs'' \<longrightarrow>
         replaceFakerjsDev (''https://fakerjs.dev/'' @ path) = ''/'' @ path)
   \<and> allowedLinks e modules =
       (\<Union>(m, methods) \<in> set (Object_values modules).
          insert (''/api/'' @ e m @ ''.html'')
            ((\<lambda>name. ''/api/'' @ e m @ ''.html#'' @ toLowerCase name) ` set (Object_keys methods)))"
proof -
  have "assertDescription isURL (allowedLinks e modules) description False = Inr () \<longleftrightarrow>
      (\<forall>url \<in> set (markdownLinks description).
         (prefix ''http://'' url \<or> prefix ''https://'' url) \<and> isURL url
         \<and> (str_includes url ''fakerjs.dev/api/'' \<longrightarrow>
               replaceFakerjsDev url \<in> allowedLinks e modules))"
    unfolding assertDescription_def Let_def forEach_Inr_iff
    by (auto simp: andThen_def expect_def matchesHttp_def split: if_splits)
  with replaceFakerjsDev_https allowedLinks_eq [of e modules] show ?thesis
    by (metis (no_types, lifting))
qed

theorem assertDescription_checks_markdown_links_witness:
  "assertDescription exampleIsURL
     (allowedLinks id [(''number'', (''number'', [(''int'', ()), (''float'', ())]))])
     ''For simple integers, use [`int()`](https://fakerjs.dev/api/number.html#int).'' False
   = Inr ()
   \<and> replaceFakerjsDev ''https://fakerjs.dev/api/number.html#int'' = ''/api/number.html#int''"
proof -
  have lower: "toLowerCase ''int'' = ''int''" "toLowerCase ''float'' = ''float''"
    by code_simp+
  have links: "markdownLinks
      ''For simple integers, use [`int()`](https://fakerjs.dev/api/number.html#int).''
      = [''https://fakerjs.dev/api/number.html#int'']"
    by (simp add: Let_def)
  have strip: "replaceFakerjsDev ''https://fakerjs.dev/api/number.html#int'' = ''/api/number.html#int''"
    by (simp add: fakerjsDevAt_def isLineTerminator_def)
  have allowed: "allowedLinks id [(''number'', (''number'', [(''int'', ()), (''float'', ())]))]
      = {''/api/number.html'', ''/api/number.html#int'', ''/api/number.html#float''}"
    by (simp add: allowedLinks_def Object_values_def Object_keys_def lower)
  have cond: "\<forall>url \<in> set (markdownLinks
        ''For simple integers, use [`int()`](https://fakerjs.dev/api/number.html#int).'').
      (prefix ''http://'' url \<or> prefix ''https://'' url) \<and> exampleIsURL url
      \<and> (str_includes url ''fakerjs.dev/api/'' \<longrightarrow>
            replaceFakerjsDev url
              \<in> allowedLinks id [(''number'', (''number'', [(''int'', ()), (''float'', ())]))])"
    unfolding links allowed
    by (simp add: fakerjsDevAt_def isLineTerminator_def exampleIsURL_def matchesHttp_def)
  have "assertDescription exampleIsURL
     (allowedLinks id [(''number'', (''number'', [(''int'', ()), (''float'', ())]))])
     ''For simple integers, use [`int()`](https://fakerjs.dev/api/number.html#int).'' False
   = Inr ()"
    using cond assertDescription_checks_markdown_links [of exampleIsURL id
        "[(''number'', (''number'', [(''int'', ()), (''float'', ())]))]"
        "''For simple integers, use [`int()`](https://fakerjs.dev/api/number.html#int).''"]
    by blast
  with strip show ?thesis by blast
qed

text \<open>
  Claim C6, as it is stated, fails.  The URL \<open>https://fakerjs.dev/guide/usage.html\<close> is
  on the documentation domain and its path, as the check itself strips it, is no allowed
  link; the description that links to it passes the check, since the URL does not hold
  \<open>fakerjs.dev/api/\<close>.
\<close>

theorem assertDescription_documentation_host_counterexample:
  "assertDescription exampleIsURL
     (allowedLinks id [(''number'', (''number'', [(''int'', ()), (''float'', ())]))])
     ''See the [usage guide](https://fakerjs.dev/guide/usage.html).'' False
   = Inr ()
   \<and> replaceFakerjsDev ''https://fakerjs.dev/guide/usage.html'' = ''/guide/usage.html''
   \<and> ''/guide/usage.html''
       \<notin> allowedLinks id [(''number'', (''number'', [(''int'', ()), (''float'', ())]))]"
  by (simp add: assertDescription_def allowedLinks_def Object_values_def Object_keys_def
      Let_def matchesHttp_def exampleIsURL_def andThen_def expect_def fakerjsDevAt_def
      isLineTerminator_def)

lemma htmlTagAt_not_lt: "CHR ''<'' \<noteq> c \<Longrightarrow> htmlTagAt (c # cs) = None"
  by (auto simp: htmlTagAt_def)

lemma stripHtmlTags_plain:
  "CHR ''<'' \<notin> set s \<Longrightarrow> stripHtmlTags (s @ t) = s @ stripHtmlTags t"
  by (induction s) (simp_all add: htmlTagAt_not_lt)

lemma stripHtmlTags_paragraph:
  assumes "CHR ''<'' \<notin> set s"
  shows "stripHtmlTags (''<p>'' @ s @ ''</p>'') = s"
proof -
  have "htmlTagAt (''<p>'' @ s @ ''</p>'') = Some (s @ ''</p>'')"
    by (simp add: htmlTagAt_def)
  then have "stripHtmlTags (''<p>'' @ s @ ''</p>'') = stripHtmlTags (s @ ''</p>'')"
    by simp
  also have "\<dots> = s @ stripHtmlTags ''</p>''"
    using assms by (rule stripHtmlTags_plain)
  also have "stripHtmlTags ''</p>'' = []"
    by (simp add: htmlTagAt_def)
  finally show ?thesis by simp
qed

text \<open>
  Claim C8.  The test of the \<^verbatim>\<open>@param\<close> tags passes exactly when, for every parameter,
  the description without its tags and trimmed differs from the sentinel, and the links
  of the description are allowed.  A description that is the sentinel, bare or between
  \<^verbatim>\<open><p>\<close> and \<^verbatim>\<open></p>\<close>, fails the test; an empty description passes it.
\<close>

theorem verify_param_tags_rejects_missing_description:
  assumes "reservedSentinel MISSING_DESCRIPTION"
  shows "(verify_param_tags MISSING_DESCRIPTION isURL allowed parameters = Inr () \<longleftrightarrow>
            (\<forall>p \<in> set parameters.
               trim (stripHtmlTags (param_description p)) \<noteq> MISSING_DESCRIPTION
               \<and> assertDescription isURL allowed (param_description p) True = Inr ()))
       \<and> verify_param_tags MISSING_DESCRIPTION isURL allowed
            [\<lparr>param_name = name, param_description = ''<p>'' @ MISSING_DESCRIPTION @ ''</p>''\<rparr>]
          = Inl (AssertionError (''Expect param '' @ name @ '' to have a description''))
       \<and> verify_param_tags MISSING_DESCRIPTION isURL allowed
            [\<lparr>param_name = name, param_description = MISSING_DESCRIPTION\<rparr>]
          = Inl (AssertionError (''Expect param '' @ name @ '' to have a description''))
       \<and> verify_param_tags MISSING_DESCRIPTION isURL allowed
            [\<lparr>param_name = name, param_description = ''''\<rparr>]
          = Inr ()"
proof -
  from assms have ne: "MISSING_DESCRIPTION \<noteq> ''''"
    and lt: "CHR ''<'' \<notin> set MISSING_DESCRIPTION"
    and tr: "trim MISSING_DESCRIPTION = MISSING_DESCRIPTION"
    by (simp_all add: reservedSentinel_def)
  have a: "verify_param_tags MISSING_DESCRIPTION isURL allowed parameters = Inr () \<longleftrightarrow>
            (\<forall>p \<in> set parameters.
               trim (stripHtmlTags (param_description p)) \<noteq> MISSING_DESCRIPTION
               \<and> assertDescription isURL allowed (param_description p) True = Inr ())"
    unfolding verify_param_tags_def forEach_Inr_iff
    by (auto simp: Let_def andThen_def expect_def split: if_splits)
  have b: "trim (stripHtmlTags (''<p>'' @ MISSING_DESCRIPTION @ ''</p>'')) = MISSING_DESCRIPTION"
    using stripHtmlTags_paragraph [OF lt] tr by simp
  have "stripHtmlTags (MISSING_DESCRIPTION @ []) = MISSING_DESCRIPTION @ stripHtmlTags []"
    using lt by (rule stripHtmlTags_plain)
  then have c: "trim (stripHtmlTags MISSING_DESCRIPTION) = MISSING_DESCRIPTION"
    using tr by simp
  have d: "trim (stripHtmlTags '''') \<noteq> MISSING_DESCRIPTION"
    using ne by (simp add: trim_def)
  have e: "assertDescription isURL allowed '''' True = Inr ()"
    by (simp add: assertDescription_def)
  show ?thesis
    using a b c d e by (simp add: verify_param_tags_def Let_def andThen_def expect_def)
qed

theorem verify_param_tags_rejects_missing_description_witness:
  "reservedSentinel ''Missing''
   \<and> verify_param_tags ''Missing'' exampleIsURL {}
       [\<lparr>param_name = ''options'', param_description = ''<p>Missing</p>''\<rparr>]
     = Inl (AssertionError ''Expect param options to have a description'')
   \<and> verify_param_tags ''Missing'' exampleIsURL {}
       [\<lparr>param_name = ''options'', param_description = ''''\<rparr>]
     = Inr ()"
proof -
  have s: "reservedSentinel ''Missing''"
    by (simp add: reservedSentinel_def trim_def isTrimChar_def)
  show ?thesis
    using s verify_param_tags_rejects_missing_description [OF s, of exampleIsURL "{}" "[]" "''options''"]
    by simp
qed

end
